theory Spec2Isabelle
  imports Complex_Main
begin

chapter \<open>The model\<close>

section \<open>Numbers, 3D points and the layout engine (space_generator.js)\<close>

text \<open>
  JavaScript numbers are modelled as exact reals: rounding and overflow of IEEE doubles
  are outside the model. The one way the code under study can produce a non-finite
  number (NaN, Infinity) from finite ones without overflow is a division by zero, so
  division is partial: \<open>None\<close> stands for the non-finite quotient.
\<close>

definition js_div :: "real \<Rightarrow> real \<Rightarrow> real option" where
  "js_div a b = (if b = 0 then None else Some (a / b))"

text \<open>A point \<open>{ x, y, z }\<close> (also a \<open>THREE.Vector3\<close> value).\<close>

datatype vec3 = Vec3 (vx: real) (vy: real) (vz: real)

text \<open>\<open>a.distanceTo(b)\<close>: the Euclidean distance.\<close>

definition distanceTo :: "vec3 \<Rightarrow> vec3 \<Rightarrow> real" where
  "distanceTo a b =
     sqrt ((vx a - vx b) * (vx a - vx b) + (vy a - vy b) * (vy a - vy b)
           + (vz a - vz b) * (vz a - vz b))"


text \<open>
  \<open>Math.random()\<close> is a stream of draws: \<open>rnd k\<close> is the value of the \<open>k\<close>-th call.
  The initialisation loop draws three numbers per point.
\<close>

definition init_positions :: "(nat \<Rightarrow> real) \<Rightarrow> nat \<Rightarrow> vec3 list" where
  "init_positions rnd n =
     map (\<lambda>i. Vec3 ((rnd (3 * i) - 0.5) * 20)
                     ((rnd (3 * i + 1) - 0.5) * 20)
                     ((rnd (3 * i + 2) - 0.5) * 20)) [0..<n]"

text \<open>
  \<open>distances[i][j]\<close>: a missing row makes the source throw a TypeError, a missing
  entry gives \<open>undefined\<close> and a NaN target distance; both are \<open>None\<close> here.
\<close>

definition mat_at :: "real list list \<Rightarrow> nat \<Rightarrow> nat \<Rightarrow> real option" where
  "mat_at m i j = (if i < length m \<and> j < length (m ! i) then Some (m ! i ! j) else None)"

text \<open>\<open>Math.sqrt(dx * dx + dy * dy + dz * dz) || 0.1\<close>: zero is falsy and is replaced.\<close>

definition pair_dist :: "real \<Rightarrow> real \<Rightarrow> real \<Rightarrow> real" where
  "pair_dist dx dy dz =
     (let s = sqrt (dx * dx + dy * dy + dz * dz) in if s = 0 then 0.1 else s)"

text \<open>The spring constant \<open>k\<close>.\<close>

definition k_spring :: real where
  "k_spring = 0.1"

text \<open>The body of the inner loop over \<open>j\<close>: one pair's force, added at \<open>i\<close>, subtracted at \<open>j\<close>.\<close>

definition pair_force ::
  "vec3 list \<Rightarrow> real list list \<Rightarrow> nat \<Rightarrow> nat \<Rightarrow> vec3 list \<Rightarrow> vec3 list option" where
  "pair_force positions distances i j forces =
     (let dx = vx (positions ! j) - vx (positions ! i);
          dy = vy (positions ! j) - vy (positions ! i);
          dz = vz (positions ! j) - vz (positions ! i);
          dist = pair_dist dx dy dz
      in case mat_at distances i j of
           None \<Rightarrow> None
         | Some d \<Rightarrow>
             (let targetDist = d * 10
              in case js_div (k_spring * (dist - targetDist)) dist of
                   None \<Rightarrow> None
                 | Some force \<Rightarrow>
                     (let forces1 = forces[i := Vec3 (vx (forces ! i) + force * dx)
                                                     (vy (forces ! i) + force * dy)
                                                     (vz (forces ! i) + force * dz)]
                      in Some (forces1[j := Vec3 (vx (forces1 ! j) - force * dx)
                                                 (vy (forces1 ! j) - force * dy)
                                                 (vz (forces1 ! j) - force * dz)]))))"

text \<open>A \<open>for\<close> loop over the indices \<open>xs\<close> whose body may fail.\<close>

primrec for_each :: "('a \<Rightarrow> 's \<Rightarrow> 's option) \<Rightarrow> 'a list \<Rightarrow> 's \<Rightarrow> 's option" where
  "for_each body [] s = Some s"
| "for_each body (a # as) s =
     (case body a s of None \<Rightarrow> None | Some s' \<Rightarrow> for_each body as s')"

text \<open>The force accumulation: \<open>for i < n\<close>, \<open>for j = i + 1 .. n - 1\<close>, from zero forces.\<close>

definition calc_forces :: "vec3 list \<Rightarrow> real list list \<Rightarrow> vec3 list option" where
  "calc_forces positions distances =
     (let n = length positions
      in for_each (\<lambda>i. for_each (\<lambda>j. pair_force positions distances i j) [i + 1..<n])
           [0..<n] (replicate n (Vec3 0 0 0)))"

text \<open>The application loop: every position moves by a tenth of its force.\<close>

definition apply_forces :: "vec3 list \<Rightarrow> vec3 list \<Rightarrow> vec3 list" where
  "apply_forces positions forces =
     map (\<lambda>i. Vec3 (vx (positions ! i) + vx (forces ! i) * 0.1)
                     (vy (positions ! i) + vy (forces ! i) * 0.1)
                     (vz (positions ! i) + vz (forces ! i) * 0.1)) [0..<length positions]"

text \<open>The outer loop: \<open>iterations\<close> rounds of force accumulation and application.\<close>

primrec relax :: "real list list \<Rightarrow> nat \<Rightarrow> vec3 list \<Rightarrow> vec3 list option" where
  "relax distances 0 positions = Some positions"
| "relax distances (Suc it) positions =
     (case calc_forces positions distances of
        None \<Rightarrow> None
      | Some forces \<Rightarrow> relax distances it (apply_forces positions forces))"

text \<open>The constants \<open>iterations\<close> and the entry point \<open>projectTo3D(words, distances)\<close>.\<close>

definition iterations :: nat where
  "iterations = 100"

definition projectTo3D :: "(nat \<Rightarrow> real) \<Rightarrow> string list \<Rightarrow> real list list \<Rightarrow> vec3 list option" where
  "projectTo3D rnd words distances =
     relax distances iterations (init_positions rnd (length words))"



text \<open>The two-entity scenario: the matrix \<open>[[0,1],[1,0]]\<close> and the distance of the two
  positions the layout returns for it.\<close>

definition unit_matrix2 :: "real list list" where
  "unit_matrix2 = [[0, 1], [1, 0]]"

definition two_point_distance :: "(nat \<Rightarrow> real) \<Rightarrow> real option" where
  "two_point_distance rnd =
     (case projectTo3D rnd [''a'', ''b''] unit_matrix2 of
        Some [p, q] \<Rightarrow> Some (distanceTo p q)
      | _ \<Rightarrow> None)"

text \<open>A random source that replays a recorded list of draws.\<close>

definition replay :: "real list \<Rightarrow> nat \<Rightarrow> real" where
  "replay xs k = (if k < length xs then xs ! k else 0)"

section \<open>The LLM collaborator (groq_agent.js, space_generator.js)\<close>

text \<open>What \<open>parseFloat\<close> can return: a finite number, NaN, Infinity or -Infinity.\<close>

datatype jsnum = Num real | NaN | PosInf | NegInf

text \<open>
  What the HTTP call inside \<open>queryGroq\<close> (groq_agent.js) can meet: \<open>fetch\<close> or
  the JSON decoding throws, the status is not ok, the body has no
  \<open>choices[0].message\<close>, or the message has a content.
\<close>

datatype provider_reply =
    FetchFailed
  | StatusNotOk
  | InvalidStructure
  | Content string

text \<open>White space as \<open>String.prototype.trim\<close> sees it, on ASCII characters.\<close>

definition is_space :: "char \<Rightarrow> bool" where
  "is_space c = (c \<in> set [CHR '' '', CHR 0x09, CHR 0x0A, CHR 0x0B, CHR 0x0C, CHR 0x0D])"

text \<open>\<open>s.trim()\<close>.\<close>

definition trim :: "string \<Rightarrow> string" where
  "trim s = rev (dropWhile is_space (rev (dropWhile is_space s)))"

text \<open>
  \<open>queryGroq\<close> never throws: it catches every error and returns \<open>null\<close> (here
  \<open>None\<close>); on a reply it returns the trimmed content.
\<close>

definition queryGroq :: "provider_reply \<Rightarrow> string option" where
  "queryGroq reply = (case reply of Content c \<Rightarrow> Some (trim c) | _ \<Rightarrow> None)"

text \<open>\<open>!response\<close>: \<open>null\<close> and the empty string are falsy.\<close>

definition falsy :: "string option \<Rightarrow> bool" where
  "falsy response = (case response of None \<Rightarrow> True | Some s \<Rightarrow> s = [])"

text \<open>\<open>s.split(sep)\<close> for a separator of one character.\<close>

fun split_on :: "char \<Rightarrow> string \<Rightarrow> string list" where
  "split_on sep [] = [[]]"
| "split_on sep (c # cs) =
     (if c = sep then [] # split_on sep cs
      else case split_on sep cs of
             w # ws \<Rightarrow> (c # w) # ws
           | [] \<Rightarrow> [[c]])"

text \<open>\<open>!isNaN(n) && n >= lo && n <= hi\<close>; an infinity fails one of the two comparisons.\<close>

definition in_range :: "real \<Rightarrow> real \<Rightarrow> jsnum \<Rightarrow> bool" where
  "in_range lo hi n = (case n of Num r \<Rightarrow> lo \<le> r \<and> r \<le> hi | _ \<Rightarrow> False)"

text \<open>\<open>while (numbers.length < n) numbers.push(d)\<close>.\<close>

function pad_with :: "jsnum \<Rightarrow> nat \<Rightarrow> jsnum list \<Rightarrow> jsnum list" where
  "pad_with d n numbers = (if length numbers < n then pad_with d n (numbers @ [d]) else numbers)"
  by pat_completeness auto
termination
  by (relation "measure (\<lambda>(d, n, numbers). n - length numbers)") auto

declare pad_with.simps [simp del]

text \<open>
  The response is split at every newline, each line is trimmed and given to
  \<open>parseFloat\<close>, and the numbers out of range are filtered out. The built-in
  \<open>parseFloat\<close> is a parameter: the properties hold for every parser.
\<close>

definition parse_numbers :: "(string \<Rightarrow> jsnum) \<Rightarrow> real \<Rightarrow> real \<Rightarrow> string \<Rightarrow> jsnum list" where
  "parse_numbers parseFloat lo hi response =
     filter (in_range lo hi) (map (\<lambda>line. parseFloat (trim line)) (split_on (CHR 0x0A) response))"

text \<open>\<open>batchSimilarity(word, neighbors)\<close>; \<open>reply\<close> is what the provider does with the prompt.\<close>

definition batchSimilarity :: "(string \<Rightarrow> jsnum) \<Rightarrow> provider_reply \<Rightarrow> string \<Rightarrow> string list \<Rightarrow> jsnum list" where
  "batchSimilarity parseFloat reply word neighbors =
     (let response = queryGroq reply
      in if falsy response then map (\<lambda>n. Num 0.5) neighbors
         else (let numbers = parse_numbers parseFloat 0 1 (the response)
               in take (length neighbors) (pad_with (Num 0.5) (length neighbors) numbers)))"

text \<open>\<open>calculateCurvature(words)\<close>.\<close>

definition calculateCurvature :: "(string \<Rightarrow> jsnum) \<Rightarrow> provider_reply \<Rightarrow> string list \<Rightarrow> jsnum list" where
  "calculateCurvature parseFloat reply words =
     (let response = queryGroq reply
      in if falsy response then map (\<lambda>w. Num 2.0) words
         else (let ratings = parse_numbers parseFloat 0 10 (the response)
               in take (length words) (pad_with (Num 2.0) (length words) ratings)))"

text \<open>A parser for the sample replies used below.\<close>

definition demo_parseFloat :: "string \<Rightarrow> jsnum" where
  "demo_parseFloat s =
     (if s = ''0.9'' then Num 0.9 else if s = ''7'' then Num 7 else if s = ''-1'' then Num (- 1)
      else NaN)"

section \<open>Particles and the Fibonacci expansion (quantum-assembly.js)\<close>

text \<open>
  \<open>THREE.Vector3\<close> objects that are passed by reference (target positions, the
  positions of generated satellites) live in a store: an address is an index, and
  \<open>new THREE.Vector3\<close> appends. The mutating methods update the receiver in the store.
\<close>

type_synonym addr = nat

type_synonym store = "vec3 list"

text \<open>\<open>new THREE.Vector3(x, y, z)\<close>: the new store and the address of the object.\<close>

definition vec_new :: "store \<Rightarrow> vec3 \<Rightarrow> store \<times> addr" where
  "vec_new h v = (h @ [v], length h)"

text \<open>\<open>a.add(b)\<close>: adds \<open>b\<close> into \<open>a\<close>.\<close>

definition vec_add :: "store \<Rightarrow> addr \<Rightarrow> addr \<Rightarrow> store" where
  "vec_add h a b =
     h[a := Vec3 (vx (h ! a) + vx (h ! b)) (vy (h ! a) + vy (h ! b)) (vz (h ! a) + vz (h ! b))]"

text \<open>\<open>a.divideScalar(s)\<close>, which three.js computes as \<open>a.multiplyScalar(1 / s)\<close>.\<close>

definition vec_divideScalar :: "store \<Rightarrow> addr \<Rightarrow> real \<Rightarrow> store" where
  "vec_divideScalar h a s =
     h[a := Vec3 (vx (h ! a) * (1 / s)) (vy (h ! a) * (1 / s)) (vz (h ! a) * (1 / s))]"

text \<open>
  A particle of the pool. \<open>position\<close> is \<open>mesh.position\<close> and \<open>visible\<close> is
  \<open>mesh.visible\<close>; they and \<open>velocity\<close> belong to the particle alone and are
  held by value. \<open>targetPosition\<close> is a reference into the store, \<open>None\<close> for
  \<open>null\<close>.
\<close>

record particle =
  position :: vec3
  velocity :: vec3
  targetPosition :: "addr option"
  superpositionTarget :: "vec3 option"
  curvature :: real
  centrality :: real
  word :: "string option"
  visible :: bool

text \<open>
  An entry of \<open>fibonacciNodes\<close>. The fields \<open>position\<close>, \<open>curvature\<close> and
  \<open>centrality\<close> carry the prefix \<open>fib_\<close>, as a particle has fields of these names.
\<close>

record fib_node =
  fib_position :: addr
  fib_curvature :: real
  fib_centrality :: real
  parentNode :: particle
  index :: nat
  distanceFromParent :: real

text \<open>The golden angle in degrees, and the scale of the spiral.\<close>

definition GOLDEN_ANGLE :: real where
  "GOLDEN_ANGLE = 137.5077640"

definition FIBONACCI_SCALE :: real where
  "FIBONACCI_SCALE = 0.5"

text \<open>The loop of \<open>getFibonacciNumber\<close>: \<open>for (i = 2; i <= n; i++)\<close> over \<open>a\<close> and \<open>b\<close>.\<close>

function fib_loop :: "nat \<Rightarrow> nat \<Rightarrow> nat \<Rightarrow> nat \<Rightarrow> nat" where
  "fib_loop i n a b = (if i \<le> n then fib_loop (i + 1) n b (a + b) else b)"
  by pat_completeness auto
termination
  by (relation "measure (\<lambda>(i, n, a, b). n + 1 - i)") auto

declare fib_loop.simps [simp del]

text \<open>\<open>getFibonacciNumber(n)\<close>, on exact integers.\<close>

definition getFibonacciNumber :: "nat \<Rightarrow> nat" where
  "getFibonacciNumber n = (if n \<le> 1 then n else fib_loop 2 n 0 1)"

text \<open>
  \<open>coreNodes.forEach(node => centerOfMass.add(node.targetPosition))\<close>; a \<open>null\<close>
  target makes \<open>add\<close> throw a TypeError (\<open>None\<close>).
\<close>

fun add_targets :: "store \<Rightarrow> addr \<Rightarrow> particle list \<Rightarrow> store option" where
  "add_targets h com [] = Some h"
| "add_targets h com (node # nodes) =
     (case targetPosition node of
        None \<Rightarrow> None
      | Some t \<Rightarrow> add_targets (vec_add h com t) com nodes)"

text \<open>\<open>v || d\<close> for a number \<open>v\<close>: zero is falsy and gives the default.\<close>

definition or_default :: "real \<Rightarrow> real \<Rightarrow> real" where
  "or_default v d = (if v = 0 then d else v)"

text \<open>The \<open>forEach\<close> that fills \<open>cumulativeWeights\<close> with the running sums of \<open>w / totalWeight\<close>.\<close>

fun cumulative_sums :: "real \<Rightarrow> real \<Rightarrow> real list \<Rightarrow> real list" where
  "cumulative_sums totalWeight cumulative [] = []"
| "cumulative_sums totalWeight cumulative (w # ws) =
     (cumulative + w / totalWeight) # cumulative_sums totalWeight (cumulative + w / totalWeight) ws"

text \<open>The search loop: the first index \<open>j\<close> with \<open>rand < cumulativeWeights[j]\<close>.\<close>

fun first_above :: "real \<Rightarrow> real list \<Rightarrow> nat \<Rightarrow> nat option" where
  "first_above rand [] j = None"
| "first_above rand (c # cs) j = (if rand < c then Some j else first_above rand cs (j + 1))"

text \<open>
  The choice of \<open>nearestCore\<close> for one satellite: \<open>coreNodes[0]\<close> unless the search
  finds an index. When \<open>totalWeight\<close> is zero the quotients are infinite or NaN in
  JavaScript and the search either stops at index 0 or finds nothing, so the choice is
  \<open>coreNodes[0]\<close>. With no core node the choice is \<open>undefined\<close> (\<open>None\<close>).
\<close>

definition nearest_core :: "particle list \<Rightarrow> nat \<Rightarrow> particle option" where
  "nearest_core coreNodes fibIndex =
     (let coreWeights = map (\<lambda>node. or_default (curvature node) 5.0) coreNodes;
          totalWeight = foldl (+) 0 coreWeights;
          cumulativeWeights = cumulative_sums totalWeight 0 coreWeights;
          rand = real (fibIndex mod 100) / 100;
          chosen = (if totalWeight = 0 then 0
                    else case first_above rand cumulativeWeights 0 of None \<Rightarrow> 0 | Some j \<Rightarrow> j)
      in if chosen < length coreNodes then Some (coreNodes ! chosen) else None)"

text \<open>
  The body of the loop over \<open>i\<close>: one satellite. Reading \<open>targetPosition\<close> of an
  undefined \<open>nearestCore\<close>, or a coordinate of a \<open>null\<close> target, throws a TypeError
  (\<open>None\<close>).
\<close>

definition fib_node_at :: "store \<Rightarrow> particle list \<Rightarrow> addr \<Rightarrow> nat \<Rightarrow> (store \<times> fib_node) option" where
  "fib_node_at h coreNodes centerOfMass i =
     (let goldenAngleRad = (GOLDEN_ANGLE * pi) / 180;
          fibIndex = i;
          theta = real fibIndex * goldenAngleRad;
          fibNumber = getFibonacciNumber (fibIndex div 10 + 1);
          baseRadius = sqrt (real fibIndex + 1) * FIBONACCI_SCALE;
          radius = baseRadius * (1 + real (fibNumber mod 5) * 0.1);
          phi = arccos (1 - 2 * real (fibIndex mod 89) / 89)
      in case nearest_core coreNodes fibIndex of
           None \<Rightarrow> None
         | Some nearestCore \<Rightarrow>
             (case targetPosition nearestCore of
                None \<Rightarrow> None
              | Some corePos \<Rightarrow>
                  (let x = vx (h ! corePos) + radius * sin phi * cos theta;
                       y = vy (h ! corePos) + radius * sin phi * sin theta;
                       z = vz (h ! corePos) + radius * cos phi;
                       (h1, position) = vec_new h (Vec3 x y z);
                       distanceFromCore = distanceTo (h1 ! position) (h1 ! corePos);
                       inheritanceFactor = exp (- distanceFromCore / 5.0);
                       curvature = or_default (curvature nearestCore) 5.0 * inheritanceFactor;
                       centrality = distanceTo (h1 ! position) (h1 ! centerOfMass)
                   in Some (h1, \<lparr> fib_position = position, fib_curvature = curvature,
                                   fib_centrality = centrality, parentNode = nearestCore,
                                   index = fibIndex, distanceFromParent = distanceFromCore \<rparr>))))"

text \<open>\<open>for (let i = 0; i < count; i++)\<close>, pushing each satellite.\<close>

fun fib_nodes_loop ::
  "particle list \<Rightarrow> addr \<Rightarrow> nat list \<Rightarrow> store \<times> fib_node list \<Rightarrow> (store \<times> fib_node list) option" where
  "fib_nodes_loop coreNodes centerOfMass [] acc = Some acc"
| "fib_nodes_loop coreNodes centerOfMass (i # is) (h, fibonacciNodes) =
     (case fib_node_at h coreNodes centerOfMass i of
        None \<Rightarrow> None
      | Some (h1, node) \<Rightarrow> fib_nodes_loop coreNodes centerOfMass is (h1, fibonacciNodes @ [node]))"

text \<open>
  \<open>generateFibonacciExpansion(coreNodes, count)\<close>: the store after the call, and
  \<open>fibonacciNodes\<close>. With no core node the centre of mass is divided by zero and is
  NaN in JavaScript; it is then never read, as the loop throws at its first satellite
  or does not run.
\<close>

definition generateFibonacciExpansion ::
  "store \<Rightarrow> particle list \<Rightarrow> nat \<Rightarrow> (store \<times> fib_node list) option" where
  "generateFibonacciExpansion h coreNodes count =
     (let (h0, centerOfMass) = vec_new h (Vec3 0 0 0)
      in case add_targets h0 centerOfMass coreNodes of
           None \<Rightarrow> None
         | Some h1 \<Rightarrow>
             fib_nodes_loop coreNodes centerOfMass [0..<count]
               (vec_divideScalar h1 centerOfMass (real (length coreNodes)), []))"

text \<open>A particle with a given target and curvature, for the concrete runs below.\<close>

definition particle_with :: "addr option \<Rightarrow> real \<Rightarrow> particle" where
  "particle_with t c =
     \<lparr> position = Vec3 0 0 0, velocity = Vec3 0 0 0, targetPosition = t,
       superpositionTarget = None, curvature = c, centrality = 0, word = None,
       visible = False \<rparr>"

text \<open>Every core node has a target position, and it is an object of the store.\<close>

definition valid_targets :: "store \<Rightarrow> particle list \<Rightarrow> bool" where
  "valid_targets h coreNodes =
     list_all (\<lambda>node. case targetPosition node of None \<Rightarrow> False | Some t \<Rightarrow> t < length h) coreNodes"

text \<open>A satellite as a caller reads it: the value of its position and its other fields.\<close>

definition view :: "store \<Rightarrow> fib_node \<Rightarrow> vec3 \<times> real \<times> real \<times> particle \<times> nat \<times> real" where
  "view h node =
     (h ! fib_position node, fib_curvature node, fib_centrality node, parentNode node,
      index node, distanceFromParent node)"

text \<open>Two stores hold the same values at the target positions of the core nodes.\<close>

definition same_targets :: "store \<Rightarrow> store \<Rightarrow> particle list \<Rightarrow> bool" where
  "same_targets h1 h2 coreNodes =
     list_all (\<lambda>node. case targetPosition node of
                          None \<Rightarrow> True
                        | Some t \<Rightarrow> t < length h1 \<and> t < length h2 \<and> h1 ! t = h2 ! t) coreNodes"

text \<open>
  Two results of the expansion read the same, and neither call has changed an object
  that existed before it.
\<close>

definition same_result :: "store \<Rightarrow> store \<Rightarrow> store \<times> fib_node list \<Rightarrow> store \<times> fib_node list \<Rightarrow> bool" where
  "same_result h1 h2 r1 r2 =
     (map (view (fst r1)) (snd r1) = map (view (fst r2)) (snd r2)
      \<and> take (length h1) (fst r1) = h1 \<and> take (length h2) (fst r2) = h2)"

text \<open>
  Two runs of the expansion side by side: each store still starts with its initial
  store, and the two centres of mass (at the first new address of each) are equal.
\<close>

definition in_step :: "store \<Rightarrow> store \<Rightarrow> store \<Rightarrow> store \<Rightarrow> bool" where
  "in_step h1 h2 g1 g2 =
     (take (length h1) g1 = h1 \<and> take (length h2) g2 = h2
      \<and> length h1 < length g1 \<and> length h2 < length g2
      \<and> g1 ! length h1 = g2 ! length h2)"

text \<open>Two satellites agree on every field but the address of the position.\<close>

definition same_node :: "fib_node \<Rightarrow> fib_node \<Rightarrow> bool" where
  "same_node n1 n2 =
     (fib_curvature n1 = fib_curvature n2 \<and> fib_centrality n1 = fib_centrality n2
      \<and> parentNode n1 = parentNode n2 \<and> index n1 = index n2
      \<and> distanceFromParent n1 = distanceFromParent n2)"

section \<open>Potential connections (quantum-assembly.js)\<close>

text \<open>The distance below which two target positions make a candidate.\<close>

definition CONNECTION_THRESHOLD :: real where
  "CONNECTION_THRESHOLD = 3.0"

text \<open>
  An entry of \<open>potentialConnections\<close>; \<open>p1\<close> and \<open>p2\<close> refer to particles by
  their index in the pool.
\<close>

record potential_connection =
  p1 :: nat
  p2 :: nat
  distance :: real
  formed :: bool

text \<open>The body of the inner loop of \<open>calculatePotentialConnections\<close>, for the pair \<open>(i, j)\<close>.\<close>

definition consider_pair ::
  "store \<Rightarrow> particle list \<Rightarrow> nat \<Rightarrow> potential_connection list \<Rightarrow> nat \<Rightarrow> potential_connection list" where
  "consider_pair h particles i potentialConnections j =
     (case (targetPosition (particles ! i), targetPosition (particles ! j)) of
        (Some a, Some b) \<Rightarrow>
          (let dist = distanceTo (h ! a) (h ! b)
           in if dist < CONNECTION_THRESHOLD
              then potentialConnections @ [\<lparr> p1 = i, p2 = j, distance = dist, formed = False \<rparr>]
              else potentialConnections)
      | _ \<Rightarrow> potentialConnections)"

text \<open>\<open>calculatePotentialConnections()\<close>: \<open>for i\<close>, \<open>for j = i + 1\<close> over the pool.\<close>

definition calculatePotentialConnections :: "store \<Rightarrow> particle list \<Rightarrow> potential_connection list" where
  "calculatePotentialConnections h particles =
     foldl (\<lambda>acc i. foldl (consider_pair h particles i) acc [i + 1..<length particles])
       [] [0..<length particles]"

text \<open>What holds of every recorded candidate.\<close>

definition candidate_ok :: "store \<Rightarrow> particle list \<Rightarrow> potential_connection \<Rightarrow> bool" where
  "candidate_ok h particles c =
     (p1 c < p2 c \<and> p2 c < length particles
      \<and> (case (targetPosition (particles ! p1 c), targetPosition (particles ! p2 c)) of
            (Some a, Some b) \<Rightarrow> distance c = distanceTo (h ! a) (h ! b)
          | _ \<Rightarrow> False)
      \<and> distance c < CONNECTION_THRESHOLD \<and> \<not> formed c)"

text \<open>The loop invariant: the pairs recorded so far come before \<open>(i, j)\<close> and none is recorded twice.\<close>

definition before :: "nat \<Rightarrow> nat \<Rightarrow> potential_connection list \<Rightarrow> bool" where
  "before i j cs =
     (list_all (\<lambda>c. p1 c < i \<or> (p1 c = i \<and> p2 c < j)) cs
      \<and> distinct (map (\<lambda>c. (p1 c, p2 c)) cs))"

section \<open>The assembly controller (quantum-assembly.js)\<close>

text \<open>The decay starts 30 seconds after the assembly and lasts 45 seconds (milliseconds).\<close>

definition CONTEXT_DECAY_START :: real where
  "CONTEXT_DECAY_START = 30000"

definition CONTEXT_DECAY_DURATION :: real where
  "CONTEXT_DECAY_DURATION = 45000"

text \<open>
  The values of \<open>particleState\<close> and \<open>assemblyPhase\<close>. In the words of the
  specification \<open>SUPERPOSITION\<close> is IDLE, \<open>VOID\<close> is COLLAPSING, \<open>ATTRACTION\<close>
  ATTRACTING, \<open>BONDING\<close> CONNECTING, \<open>STABILIZATION\<close> SETTLING, and
  \<open>OBSERVATION\<close> and \<open>ASSEMBLED\<close> are OBSERVED; DECAYING is \<open>ASSEMBLED\<close> with
  \<open>isDecaying\<close> set.
\<close>

datatype phase = SUPERPOSITION | VOID | ATTRACTION | BONDING | STABILIZATION | OBSERVATION | ASSEMBLED

text \<open>
  An entry of \<open>connections\<close>: the material's opacity and emissive intensity, and
  the beam's \<open>userData\<close>.
\<close>

record connection =
  conn_p1 :: nat
  conn_p2 :: nat
  opacity :: real
  emissiveIntensity :: real
  baseOpacity :: real
  pulsePhase :: real

text \<open>
  Where a call of the asynchronous \<open>collapseToShape\<close> is suspended: at the first
  call of the provider, in the rest of the generation, in the animation loop of a phase
  (with its start time), or at the call for the topology response.
\<close>

datatype stage = GeneratingWords | GeneratingRest | InPhase phase real | AwaitingResponse

text \<open>A call of \<open>collapseToShape\<close> that has not returned yet.\<close>

record assembly =
  question :: string
  stage :: stage

text \<open>What a pending \<open>setTimeout\<close> will call.\<close>

datatype callback = EnterSuperposition

text \<open>
  The global state the controller reads and writes. \<open>timers\<close> are the pending
  \<open>setTimeout\<close> calls with their due times, \<open>running\<close> the calls of
  \<open>collapseToShape\<close> in flight. Time is the value of \<open>performance.now()\<close> that
  each event carries.
\<close>

record sim =
  particleState :: phase
  assemblyPhase :: phase
  isDecaying :: bool
  decayPaused :: bool
  decayStartTime :: real
  statusText :: string
  particles :: "particle list"
  connections :: "connection list"
  timers :: "(real \<times> callback) list"
  running :: "assembly list"

text \<open>A random point at radius 10 to 25, from three draws starting at draw \<open>k\<close>.\<close>

definition random_shell_point :: "(nat \<Rightarrow> real) \<Rightarrow> nat \<Rightarrow> vec3" where
  "random_shell_point rnd k =
     (let phi = rnd k * pi * 2;
          theta = rnd (k + 1) * pi;
          r = 10 + rnd (k + 2) * 15
      in Vec3 (r * sin theta * cos phi) (r * sin theta * sin phi) (r * cos theta))"

text \<open>The first loop of \<open>enterSuperposition\<close> over the particles.\<close>

definition hide_particle :: "particle \<Rightarrow> particle" where
  "hide_particle particle =
     particle\<lparr> visible := False, curvature := 0, centrality := 0, word := None,
               superpositionTarget := None \<rparr>"

text \<open>
  \<open>enterSuperposition()\<close>. It resets \<open>particleState\<close> and the decay flags, not
  \<open>assemblyPhase\<close>.
\<close>

definition enterSuperposition :: "(nat \<Rightarrow> real) \<Rightarrow> sim \<Rightarrow> sim" where
  "enterSuperposition rnd s =
     s\<lparr> particleState := SUPERPOSITION, isDecaying := False, decayPaused := False,
        particles := map (\<lambda>(k, particle). (hide_particle particle)\<lparr> position := random_shell_point rnd (3 * k) \<rparr>)
                       (enumerate 0 (particles s)),
        connections := [] \<rparr>"

text \<open>The body of the loop of \<open>updateConnections\<close>, as far as it sets the material.\<close>

definition pulse_connection :: "real \<Rightarrow> connection \<Rightarrow> connection" where
  "pulse_connection time conn =
     (let pulseSpeed = 2.0;
          pulseAmount = 0.3;
          pulse = sin (time * pulseSpeed + pulsePhase conn) * pulseAmount
      in conn\<lparr> opacity := baseOpacity conn * (1.0 + pulse),
                emissiveIntensity := 0.5 + pulse * 0.5 \<rparr>)"

text \<open>\<open>updateConnections()\<close>, called by every frame of the main loop.\<close>

definition updateConnections :: "real \<Rightarrow> sim \<Rightarrow> sim" where
  "updateConnections now s =
     (let time = now * 0.001
      in s\<lparr> connections := map (pulse_connection time) (connections s) \<rparr>)"

text \<open>\<open>a.lerp(b, alpha)\<close>.\<close>

definition lerp :: "vec3 \<Rightarrow> vec3 \<Rightarrow> real \<Rightarrow> vec3" where
  "lerp a b alpha =
     Vec3 (vx a + (vx b - vx a) * alpha) (vy a + (vy b - vy a) * alpha) (vz a + (vz b - vz a) * alpha)"

text \<open>
  The body of the loop of \<open>updateContextDecay\<close> over the particles; \<open>k\<close> counts
  the draws of \<open>Math.random()\<close> made so far.
\<close>

definition decay_particle :: "real \<Rightarrow> (nat \<Rightarrow> real) \<Rightarrow> nat \<Rightarrow> particle \<Rightarrow> particle \<times> nat" where
  "decay_particle decayProgress rnd k particle =
     (case targetPosition particle of
        None \<Rightarrow> (particle, k)
      | Some t \<Rightarrow>
          (let (target, k1) = (case superpositionTarget particle of
                                 Some target \<Rightarrow> (target, k)
                               | None \<Rightarrow> (random_shell_point rnd k, k + 3));
               blended = lerp (position particle) target (decayProgress * 0.02);
               v = Vec3 (vx (velocity particle) + (rnd k1 - 0.5) * 0.01 * decayProgress)
                        (vy (velocity particle) + (rnd (k1 + 1) - 0.5) * 0.01 * decayProgress)
                        (vz (velocity particle) + (rnd (k1 + 2) - 0.5) * 0.01 * decayProgress)
           in (particle\<lparr> superpositionTarget := Some target,
                          position := Vec3 (vx blended + vx v) (vy blended + vy v) (vz blended + vz v),
                          velocity := Vec3 (vx v * 0.98) (vy v * 0.98) (vz v * 0.98) \<rparr>,
               k1 + 3)))"

text \<open>The loop over the particles.\<close>

fun decay_particles :: "real \<Rightarrow> (nat \<Rightarrow> real) \<Rightarrow> nat \<Rightarrow> particle list \<Rightarrow> particle list \<times> nat" where
  "decay_particles decayProgress rnd k [] = ([], k)"
| "decay_particles decayProgress rnd k (particle # rest) =
     (let (particle', k1) = decay_particle decayProgress rnd k particle;
          (rest', k2) = decay_particles decayProgress rnd k1 rest
      in (particle' # rest', k2))"

text \<open>The body of the loop of \<open>updateContextDecay\<close> over the connections.\<close>

definition fade_connection :: "real \<Rightarrow> connection \<Rightarrow> connection" where
  "fade_connection decayProgress conn =
     conn\<lparr> opacity := baseOpacity conn * (1 - decayProgress * 0.8),
           emissiveIntensity := 0.5 * (1 - decayProgress) \<rparr>"

text \<open>\<open>updateContextDecay()\<close>, called by every frame of the main loop.\<close>

definition updateContextDecay :: "real \<Rightarrow> (nat \<Rightarrow> real) \<Rightarrow> sim \<Rightarrow> sim" where
  "updateContextDecay now rnd s =
     (if particleState s \<noteq> ASSEMBLED then s
      else
        (let elapsed = now - decayStartTime s;
             s1 = (if elapsed > CONTEXT_DECAY_START \<and> \<not> isDecaying s
                   then s\<lparr> isDecaying := True,
                           statusText := ''Context fading... shape dissolving... (press SPACE to pause)'' \<rparr>
                   else s)
         in if \<not> isDecaying s1 then s1
            else if decayPaused s1 then s1
            else
              (let decayElapsed = elapsed - CONTEXT_DECAY_START;
                   decayProgress = min 1 (decayElapsed / CONTEXT_DECAY_DURATION);
                   (ps, k) = decay_particles decayProgress rnd 0 (particles s1);
                   s2 = s1\<lparr> particles := ps,
                            connections := map (fade_connection decayProgress) (connections s1) \<rparr>
               in if decayProgress \<ge> 1.0 then enterSuperposition (\<lambda>i. rnd (k + i)) s2 else s2)))"

text \<open>The \<open>keydown\<close> listener, for the space bar.\<close>

definition key_space :: "sim \<Rightarrow> sim" where
  "key_space s =
     (if assemblyPhase s = ASSEMBLED \<and> isDecaying s
      then (let s1 = s\<lparr> decayPaused := \<not> decayPaused s \<rparr>
            in if decayPaused s1
               then s1\<lparr> statusText := ''Decay paused - inspecting shape (press SPACE to resume)'' \<rparr>
               else s1\<lparr> statusText := ''Context decaying into void...'' \<rparr>)
      else s)"

text \<open>
  \<open>collapseToShape(question)\<close> up to its first suspension, the provider call of
  \<open>generateCoreWords\<close>. Nothing here stops an assembly that is running.
\<close>

definition collapseToShape :: "string \<Rightarrow> sim \<Rightarrow> sim" where
  "collapseToShape q s =
     s\<lparr> decayPaused := False, isDecaying := False,
        statusText := ''Asking LLM for core concepts...'',
        running := running s @ [\<lparr> question = q, stage = GeneratingWords \<rparr>] \<rparr>"

text \<open>The \<open>keypress\<close> listener of the input field, for Enter.\<close>

definition submit_question :: "string \<Rightarrow> sim \<Rightarrow> sim" where
  "submit_question input s =
     (let q = trim input in if q = [] then s else collapseToShape q s)"

text \<open>A call of \<open>collapseToShape\<close> returns: it leaves the list.\<close>

definition drop_task :: "nat \<Rightarrow> assembly list \<Rightarrow> assembly list" where
  "drop_task k tasks = take k tasks @ drop (Suc k) tasks"

text \<open>
  The \<open>catch\<close> block of \<open>collapseToShape\<close>: the message is shown and
  \<open>enterSuperposition\<close> is scheduled two seconds later.
\<close>

definition assembly_failed :: "nat \<Rightarrow> string \<Rightarrow> real \<Rightarrow> sim \<Rightarrow> sim" where
  "assembly_failed k message now s =
     s\<lparr> statusText := ''Assembly failed: '' @ message,
        timers := timers s @ [(now + 2000, EnterSuperposition)],
        running := drop_task k (running s) \<rparr>"

text \<open>The call \<open>k\<close> moves to its next suspension.\<close>

definition set_stage :: "nat \<Rightarrow> stage \<Rightarrow> sim \<Rightarrow> sim" where
  "set_stage k st s = s\<lparr> running := (running s)[k := (running s ! k)\<lparr> stage := st \<rparr>] \<rparr>"

text \<open>
  The provider answers the first call. On a falsy response \<open>generateCoreWords\<close>
  throws, \<open>generateSpace\<close> rethrows and the \<open>catch\<close> block runs. Otherwise the
  generation goes on; its later progress messages are not modelled.
\<close>

definition words_reply :: "nat \<Rightarrow> provider_reply \<Rightarrow> real \<Rightarrow> sim \<Rightarrow> sim" where
  "words_reply k reply now s =
     (if k < length (running s) \<and> stage (running s ! k) = GeneratingWords
      then (if falsy (queryGroq reply)
            then assembly_failed k ''Failed to generate words from LLM'' now s
            else set_stage k GeneratingRest (s\<lparr> statusText := ''Measuring semantic distances...'' \<rparr>))
      else s)"

text \<open>The \<open>duration\<close> of each phase function, in milliseconds.\<close>

fun duration :: "phase \<Rightarrow> real" where
  "duration VOID = 1000"
| "duration ATTRACTION = 2500"
| "duration BONDING = 3000"
| "duration STABILIZATION = 2000"
| "duration OBSERVATION = 1000"
| "duration _ = 0"

text \<open>What a phase function does before its animation loop starts.\<close>

fun begin_phase :: "phase \<Rightarrow> sim \<Rightarrow> sim" where
  "begin_phase VOID s =
     s\<lparr> assemblyPhase := VOID, particleState := VOID,
        statusText := ''Wavefunction collapsing - nodes crystallizing...'' \<rparr>"
| "begin_phase ATTRACTION s =
     s\<lparr> assemblyPhase := ATTRACTION, particleState := ATTRACTION,
        statusText := ''Attraction: Forces emerging...'' \<rparr>"
| "begin_phase BONDING s =
     s\<lparr> assemblyPhase := BONDING, particleState := BONDING,
        statusText := ''Bonding: Network topology emerging...'' \<rparr>"
| "begin_phase STABILIZATION s =
     s\<lparr> assemblyPhase := STABILIZATION, particleState := STABILIZATION,
        statusText := ''Stabilization: Topology stabilizing...'' \<rparr>"
| "begin_phase OBSERVATION s =
     s\<lparr> assemblyPhase := OBSERVATION, statusText := ''Observation: Network crystallized'' \<rparr>"
| "begin_phase _ s = s"

text \<open>
  \<open>generateSpace\<close> has returned. \<open>thrown\<close> is the exception, if any, of the
  code between that return and \<open>phaseVoid\<close> (the assignment of targets; with no
  word the expansion reads a field of \<open>undefined\<close>).
\<close>

definition space_ready :: "nat \<Rightarrow> string option \<Rightarrow> real \<Rightarrow> sim \<Rightarrow> sim" where
  "space_ready k thrown now s =
     (if k < length (running s) \<and> stage (running s ! k) = GeneratingRest
      then (case thrown of
              Some message \<Rightarrow> assembly_failed k message now (s\<lparr> isDecaying := False \<rparr>)
            | None \<Rightarrow> set_stage k (InPhase VOID now) (begin_phase VOID (s\<lparr> isDecaying := False \<rparr>)))
      else s)"

text \<open>The order of the \<open>await\<close>s in \<open>collapseToShape\<close>.\<close>

fun next_phase :: "phase \<Rightarrow> phase" where
  "next_phase VOID = ATTRACTION"
| "next_phase ATTRACTION = BONDING"
| "next_phase BONDING = STABILIZATION"
| "next_phase STABILIZATION = OBSERVATION"
| "next_phase ph = ph"

text \<open>
  One \<open>requestAnimationFrame\<close> callback of the phase the call \<open>k\<close> is in: it goes
  on while \<open>t < 1\<close>, then the promise resolves and \<open>collapseToShape\<close> continues.
  The motion of the particles in the five phases is not modelled.
\<close>

definition phase_frame :: "real \<Rightarrow> sim \<Rightarrow> nat \<Rightarrow> sim" where
  "phase_frame now s k =
     (case stage (running s ! k) of
        InPhase ph startTime \<Rightarrow>
          (let elapsed = now - startTime;
               t = min (elapsed / duration ph) 1
           in if t < 1 then s
              else if ph = OBSERVATION
              then set_stage k AwaitingResponse
                     (s\<lparr> particleState := ASSEMBLED, assemblyPhase := ASSEMBLED,
                         statusText := ''Analyzing semantic curvature...'' \<rparr>)
              else set_stage k (InPhase (next_phase ph) now) (begin_phase (next_phase ph) s))
      | _ \<Rightarrow> s)"

text \<open>\<open>generateTopologyResponse\<close> has returned: the decay timer starts and the call ends.\<close>

definition response_ready :: "nat \<Rightarrow> real \<Rightarrow> sim \<Rightarrow> sim" where
  "response_ready k now s =
     (if k < length (running s) \<and> stage (running s ! k) = AwaitingResponse
      then s\<lparr> statusText := ''Topology crystallized. Network stable.'',
              decayStartTime := now,
              running := drop_task k (running s) \<rparr>
      else s)"

text \<open>
  One animation frame: the main loop (\<open>updateConnections\<close>, \<open>updateContextDecay\<close>),
  then the callback of every phase that is running, in the order the calls began.
\<close>

definition frame :: "real \<Rightarrow> (nat \<Rightarrow> real) \<Rightarrow> sim \<Rightarrow> sim" where
  "frame now rnd s =
     foldl (phase_frame now) (updateContextDecay now rnd (updateConnections now s))
       [0..<length (running s)]"

text \<open>A timer fires.\<close>

fun run_callback :: "(nat \<Rightarrow> real) \<Rightarrow> callback \<Rightarrow> sim \<Rightarrow> sim" where
  "run_callback rnd EnterSuperposition s = enterSuperposition rnd s"

text \<open>The timers due at \<open>now\<close> fire, in the order they were set.\<close>

definition fire_timers :: "real \<Rightarrow> (nat \<Rightarrow> real) \<Rightarrow> sim \<Rightarrow> sim" where
  "fire_timers now rnd s =
     foldl (\<lambda>s' (due, cb). run_callback rnd cb s')
       (s\<lparr> timers := filter (\<lambda>(due, cb). now < due) (timers s) \<rparr>)
       (filter (\<lambda>(due, cb). due \<le> now) (timers s))"

text \<open>States for the concrete runs below: at rest, in the attraction phase of a first question, and decaying.\<close>

definition idle_sim :: sim where
  "idle_sim =
     \<lparr> particleState = SUPERPOSITION, assemblyPhase = SUPERPOSITION, isDecaying = False,
       decayPaused = False, decayStartTime = 0, statusText = [], particles = [],
       connections = [], timers = [], running = [] \<rparr>"

definition attracting_sim :: sim where
  "attracting_sim =
     idle_sim\<lparr> particleState := ATTRACTION, assemblyPhase := ATTRACTION,
       statusText := ''Attraction: Forces emerging...'',
       running := [\<lparr> question = ''first'', stage = InPhase ATTRACTION 1000 \<rparr>] \<rparr>"

definition decaying_sim :: sim where
  "decaying_sim =
     idle_sim\<lparr> particleState := ASSEMBLED, assemblyPhase := ASSEMBLED, isDecaying := True,
       statusText := ''Context fading... shape dissolving... (press SPACE to pause)'',
       connections := [\<lparr> conn_p1 = 0, conn_p2 = 1, opacity = 7 / 30, emissiveIntensity = 1 / 6,
                         baseOpacity = 1 / 2, pulsePhase = 0 \<rparr>] \<rparr>"

chapter \<open>The properties\<close>

section \<open>Numbers, 3D points and the layout engine (space_generator.js): proofs\<close>


lemma pair_dist_pos: "0 < pair_dist dx dy dz"
proof -
  have "0 \<le> sqrt (dx * dx + dy * dy + dz * dz)"
    by simp
  then have "sqrt (dx * dx + dy * dy + dz * dz) \<noteq> 0
      \<Longrightarrow> 0 < sqrt (dx * dx + dy * dy + dz * dz)"
    by (simp only: less_le) simp
  then show ?thesis
    unfolding pair_dist_def Let_def by (simp del: real_sqrt_eq_zero_cancel_iff real_sqrt_gt_0_iff)
qed





lemma length_apply_forces [simp]: "length (apply_forces positions forces) = length positions"
  by (simp add: apply_forces_def)


lemma length_init_positions [simp]: "length (init_positions rnd n) = n"
  by (simp add: init_positions_def)








lemma distanceTo_sym: "distanceTo a b = distanceTo b a"
  by (simp add: distanceTo_def power2_commute algebra_simps)

lemma calc_forces2:
  "calc_forces [p, q] unit_matrix2 =
     (let dx = vx q - vx p; dy = vy q - vy p; dz = vz q - vz p;
          dist = pair_dist dx dy dz;
          force = k_spring * (dist - 10) / dist
      in Some [Vec3 (force * dx) (force * dy) (force * dz),
               Vec3 (- (force * dx)) (- (force * dy)) (- (force * dz))])"
proof -
  have nz: "pair_dist dx dy dz \<noteq> 0" for dx dy dz
    using pair_dist_pos [of dx dy dz] by simp
  show ?thesis
    by (simp add: calc_forces_def pair_force_def Let_def mat_at_def unit_matrix2_def js_div_def nz)
qed

lemma apply_forces2:
  "apply_forces [p, q] [f, g] =
     [Vec3 (vx p + vx f * 0.1) (vy p + vy f * 0.1) (vz p + vz f * 0.1),
      Vec3 (vx q + vx g * 0.1) (vy q + vy g * 0.1) (vz q + vz g * 0.1)]"
  by (simp add: apply_forces_def)

lemma scaled_norm:
  fixes c :: real
  assumes "0 \<le> c"
  shows "sqrt (c * dx * (c * dx) + c * dy * (c * dy) + c * dz * (c * dz))
           = c * sqrt (dx * dx + dy * dy + dz * dz)"
proof -
  have "c * dx * (c * dx) + c * dy * (c * dy) + c * dz * (c * dz)
          = c\<^sup>2 * (dx * dx + dy * dy + dz * dz)"
    by (simp add: power2_eq_square algebra_simps)
  then show ?thesis
    using assms by (simp add: real_sqrt_mult)
qed

lemma step2_distance:
  assumes "distanceTo q p \<noteq> 0"
  shows "\<exists>p' q'. calc_forces [p, q] unit_matrix2 \<noteq> None
           \<and> apply_forces [p, q] (the (calc_forces [p, q] unit_matrix2)) = [p', q']
           \<and> distanceTo q' p' = 49 / 50 * distanceTo q p + 1 / 5"
proof -
  define dx dy dz where "dx = vx q - vx p" and "dy = vy q - vy p" and "dz = vz q - vz p"
  define s where "s = sqrt (dx * dx + dy * dy + dz * dz)"
  have s: "s = distanceTo q p" by (simp add: s_def dx_def dy_def dz_def distanceTo_def)
  have "0 \<le> s" by (simp add: s_def)
  with assms s have s_pos: "0 < s" by simp
  have pd: "pair_dist dx dy dz = s"
    using s_pos by (simp add: pair_dist_def s_def Let_def)
  define force where "force = k_spring * (s - 10) / s"
  define c where "c = 1 - force / 5"
  have c_eq: "c * s = 49 / 50 * s + 1 / 5"
    using s_pos by (simp add: c_def force_def k_spring_def field_simps)
  have c_pos: "0 \<le> c"
  proof -
    have "0 < c * s" using c_eq s_pos by simp
    then show ?thesis using s_pos by (simp add: zero_less_mult_iff)
  qed
  define p' where "p' = Vec3 (vx p + force * dx * 0.1) (vy p + force * dy * 0.1) (vz p + force * dz * 0.1)"
  define q' where "q' = Vec3 (vx q + - (force * dx) * 0.1) (vy q + - (force * dy) * 0.1) (vz q + - (force * dz) * 0.1)"
  have cf: "calc_forces [p, q] unit_matrix2 =
      Some [Vec3 (force * dx) (force * dy) (force * dz),
            Vec3 (- (force * dx)) (- (force * dy)) (- (force * dz))]"
    unfolding calc_forces2 Let_def dx_def [symmetric] dy_def [symmetric] dz_def [symmetric] pd
      force_def [symmetric] ..
  have ap: "apply_forces [p, q] (the (calc_forces [p, q] unit_matrix2)) = [p', q']"
    by (simp add: cf apply_forces2 p'_def q'_def)
  have diff: "vx q' - vx p' = c * dx" "vy q' - vy p' = c * dy" "vz q' - vz p' = c * dz"
    by (simp_all add: p'_def q'_def c_def dx_def dy_def dz_def field_simps)
  have "distanceTo q' p' = c * s"
    unfolding distanceTo_def diff s_def by (rule scaled_norm [OF c_pos])
  with c_eq s cf ap show ?thesis by auto
qed

lemma relax2_distance:
  assumes "distanceTo q p \<noteq> 0"
  shows "\<exists>p' q'. relax unit_matrix2 it [p, q] = Some [p', q']
           \<and> distanceTo q' p' = 10 + (49 / 50) ^ it * (distanceTo q p - 10)"
  using assms
proof (induction it arbitrary: p q)
  case 0
  then show ?case by simp
next
  case (Suc it)
  from step2_distance [OF Suc.prems] obtain pa qa where
    st: "calc_forces [p, q] unit_matrix2 \<noteq> None"
      "apply_forces [p, q] (the (calc_forces [p, q] unit_matrix2)) = [pa, qa]"
      "distanceTo qa pa = 49 / 50 * distanceTo q p + 1 / 5"
    by blast
  have "0 \<le> distanceTo q p" by (simp add: distanceTo_def)
  with st(3) have "distanceTo qa pa \<noteq> 0" by simp
  from Suc.IH [OF this] obtain p' q' where
    ih: "relax unit_matrix2 it [pa, qa] = Some [p', q']"
      "distanceTo q' p' = 10 + (49 / 50) ^ it * (distanceTo qa pa - 10)"
    by blast
  from st(1) obtain f where f: "calc_forces [p, q] unit_matrix2 = Some f" by auto
  with st(2) ih(1) have "relax unit_matrix2 (Suc it) [p, q] = Some [p', q']" by simp
  moreover have "distanceTo q' p' = 10 + (49 / 50) ^ Suc it * (distanceTo q p - 10)"
    unfolding ih(2) st(3) by (simp add: field_simps)
  ultimately show ?case by blast
qed

lemma relax2_coincident:
  "relax unit_matrix2 it [p, p] = Some [p, p]"
proof (induction it)
  case 0
  then show ?case by simp
next
  case (Suc it)
  have "calc_forces [p, p] unit_matrix2 = Some [Vec3 0 0 0, Vec3 0 0 0]"
    by (simp add: calc_forces2)
  moreover have "apply_forces [p, p] [Vec3 0 0 0, Vec3 0 0 0] = [p, p]"
    by (simp add: apply_forces2)
  ultimately show ?case using Suc by simp
qed

lemma init_positions2:
  "init_positions rnd 2 =
     [Vec3 ((rnd 0 - 0.5) * 20) ((rnd 1 - 0.5) * 20) ((rnd 2 - 0.5) * 20),
      Vec3 ((rnd 3 - 0.5) * 20) ((rnd 4 - 0.5) * 20) ((rnd 5 - 0.5) * 20)]"
  by (simp add: init_positions_def numeral_2_eq_2)

lemma decay_factor_bounds: "(49 / 50 :: real) ^ 100 \<le> 3 / 22" "(1 / 8 :: real) \<le> (49 / 50) ^ 100"
  by (simp_all add: power_divide)

lemma two_point_distance_formula:
  assumes "init_positions rnd 2 = [p0, q0]" "p0 \<noteq> q0"
  shows "two_point_distance rnd = Some (10 + (49 / 50) ^ 100 * (distanceTo p0 q0 - 10))"
proof -
  have nz: "distanceTo q0 p0 \<noteq> 0"
    using assms(2) by (cases p0; cases q0) (auto simp: distanceTo_def add_nonneg_eq_0_iff)
  from relax2_distance [OF nz, of iterations] obtain p q where
    r: "relax unit_matrix2 iterations [p0, q0] = Some [p, q]"
      "distanceTo q p = 10 + (49 / 50) ^ iterations * (distanceTo q0 p0 - 10)"
    by blast
  have len: "length [''a'', ''b''] = 2" by simp
  have "projectTo3D rnd [''a'', ''b''] unit_matrix2 = Some [p, q]"
    unfolding projectTo3D_def len assms(1) by (rule r(1))
  then show ?thesis
    using r(2)
    by (simp add: two_point_distance_def distanceTo_sym [of p q]
        distanceTo_sym [of p0 q0] iterations_def del: power_numeral)
qed

lemma two_point_distance_coincident:
  assumes "init_positions rnd 2 = [p0, p0]"
  shows "two_point_distance rnd = Some 0"
proof -
  have len: "length [''a'', ''b''] = 2" by simp
  have "projectTo3D rnd [''a'', ''b''] unit_matrix2 = Some [p0, p0]"
    unfolding projectTo3D_def len assms by (rule relax2_coincident)
  then show ?thesis
    by (simp add: two_point_distance_def distanceTo_def)
qed

lemma init_positions_far:
  "init_positions (replay [0, 0, 0, 3/5, 4/5, 3/4]) 2 = [Vec3 (-10) (-10) (-10), Vec3 2 6 5]"
  by (simp add: init_positions2 replay_def)

lemma init_positions_mid:
  "init_positions (replay [0, 0, 1/2, 3/5, 4/5, 1/2]) 2 = [Vec3 (-10) (-10) 0, Vec3 2 6 0]"
  by (simp add: init_positions2 replay_def)

lemma init_positions_same:
  "init_positions (replay [1/2, 1/2, 1/2, 1/2, 1/2, 1/2]) 2 = [Vec3 0 0 0, Vec3 0 0 0]"
  by (simp add: init_positions2 replay_def)

lemma distance_far: "distanceTo (Vec3 (-10) (-10) (-10)) (Vec3 2 6 5) = 25"
  by (simp add: distanceTo_def real_sqrt_unique)

lemma distance_mid: "distanceTo (Vec3 (-10) (-10) 0) (Vec3 2 6 0) = 20"
  by (simp add: distanceTo_def real_sqrt_unique)





text \<open>
  C4 (amended). For the matrix \<open>[[0,1],[1,0]]\<close> the 100 iterations move the distance
  \<open>d\<close> of the two points to \<open>10 + 0.98^100 * (d - 10)\<close>, whenever the two initial
  points are distinct. So the returned distance is within 15 percent of 10 for every
  initial placement whose two points are distinct and at most 21 apart.
\<close>

theorem two_point_layout_distance:
  assumes "init_positions rnd 2 = [p0, q0]" "p0 \<noteq> q0"
  shows "two_point_distance rnd = Some (10 + (49 / 50) ^ 100 * (distanceTo p0 q0 - 10))
         \<and> (distanceTo p0 q0 \<le> 21 \<longrightarrow>
              (\<exists>d. two_point_distance rnd = Some d
                   \<and> 10 * (1 - 15 / 100) \<le> d \<and> d \<le> 10 * (1 + 15 / 100)))"
proof -
  have eq: "two_point_distance rnd = Some (10 + (49 / 50) ^ 100 * (distanceTo p0 q0 - 10))"
    by (rule two_point_distance_formula [OF assms])
  have "p0 = q0" if "distanceTo p0 q0 = 0"
    using that by (cases p0; cases q0) (auto simp: distanceTo_def add_nonneg_eq_0_iff)
  with assms(2) have nz: "distanceTo p0 q0 \<noteq> 0" by blast
  have "0 \<le> distanceTo p0 q0" by (simp add: distanceTo_def)
  with nz have pos: "0 < distanceTo p0 q0" by simp
  define a :: real where "a = (49 / 50) ^ 100"
  have a: "0 \<le> a" "a \<le> 3 / 22"
    using decay_factor_bounds by (simp_all add: a_def del: power_numeral)
  have lower: "a * (- 10) \<le> a * (distanceTo p0 q0 - 10)"
    using pos a(1) by (intro mult_left_mono) simp_all
  have upper: "a * (distanceTo p0 q0 - 10) \<le> a * 11" if "distanceTo p0 q0 \<le> 21"
    using that a(1) by (intro mult_left_mono) simp_all
  have "10 * (1 - 15 / 100) \<le> 10 + a * (distanceTo p0 q0 - 10)
      \<and> 10 + a * (distanceTo p0 q0 - 10) \<le> 10 * (1 + 15 / 100)" if "distanceTo p0 q0 \<le> 21"
    using lower upper [OF that] a by simp
  with eq show ?thesis
    unfolding a_def by blast
qed

theorem two_point_layout_distance_witness:
  "init_positions (replay [0, 0, 1/2, 3/5, 4/5, 1/2]) 2 = [Vec3 (-10) (-10) 0, Vec3 2 6 0]
   \<and> Vec3 (-10) (-10) 0 \<noteq> Vec3 2 6 0
   \<and> two_point_distance (replay [0, 0, 1/2, 3/5, 4/5, 1/2]) = Some (10 + (49 / 50) ^ 100 * (20 - 10))
   \<and> (\<exists>d. two_point_distance (replay [0, 0, 1/2, 3/5, 4/5, 1/2]) = Some d
          \<and> 10 * (1 - 15 / 100) \<le> d \<and> d \<le> 10 * (1 + 15 / 100))"
proof -
  have ne: "Vec3 (-10) (-10) 0 \<noteq> Vec3 2 6 0" by simp
  from two_point_layout_distance [OF init_positions_mid ne, unfolded distance_mid]
  have a: "two_point_distance (replay [0, 0, 1/2, 3/5, 4/5, 1/2]) = Some (10 + (49 / 50) ^ 100 * (20 - 10))"
    and b: "(20 :: real) \<le> 21 \<longrightarrow>
      (\<exists>d. two_point_distance (replay [0, 0, 1/2, 3/5, 4/5, 1/2]) = Some d
          \<and> 10 * (1 - 15 / 100) \<le> d \<and> d \<le> 10 * (1 + 15 / 100))"
    by blast+
  from b have c: "\<exists>d. two_point_distance (replay [0, 0, 1/2, 3/5, 4/5, 1/2]) = Some d
          \<and> 10 * (1 - 15 / 100) \<le> d \<and> d \<le> 10 * (1 + 15 / 100)"
    by (rule mp) simp
  show ?thesis
    using init_positions_mid ne a c by blast
qed

text \<open>
  The claim as stated fails inside the cube: from \<open>(-10,-10,-10)\<close> and \<open>(2,6,5)\<close>, 25
  apart, the returned distance is \<open>10 + 15 * 0.98^100\<close>, above 11.5; and two points that
  start at the same place never separate.
\<close>

theorem two_point_layout_distance_counterexample:
  "list_all (\<lambda>r. 0 \<le> r \<and> r < 1) [0, 0, 0, 3/5, 4/5, 3/4 :: real]
   \<and> two_point_distance (replay [0, 0, 0, 3/5, 4/5, 3/4]) = Some (10 + 15 * (49 / 50) ^ 100)
   \<and> 10 * (1 + 15 / 100) < 10 + 15 * (49 / 50 :: real) ^ 100
   \<and> list_all (\<lambda>r. 0 \<le> r \<and> r < 1) [1/2, 1/2, 1/2, 1/2, 1/2, 1/2 :: real]
   \<and> two_point_distance (replay [1/2, 1/2, 1/2, 1/2, 1/2, 1/2]) = Some 0"
proof -
  have ne: "Vec3 (-10) (-10) (-10) \<noteq> Vec3 2 6 5" by simp
  have far: "two_point_distance (replay [0, 0, 0, 3/5, 4/5, 3/4]) = Some (10 + 15 * (49 / 50) ^ 100)"
    using two_point_distance_formula [OF init_positions_far ne]
    unfolding distance_far by (simp del: power_numeral)
  have big: "10 * (1 + 15 / 100) < 10 + 15 * (49 / 50 :: real) ^ 100"
    using decay_factor_bounds(2) by (simp del: power_numeral)
  have same: "two_point_distance (replay [1/2, 1/2, 1/2, 1/2, 1/2, 1/2]) = Some 0"
    by (rule two_point_distance_coincident [OF init_positions_same])
  show ?thesis
    using far big same by (simp del: power_numeral)
qed

section \<open>The LLM collaborator (groq_agent.js, space_generator.js): proofs\<close>

lemma pad_with_eq: "pad_with d n numbers = numbers @ replicate (n - length numbers) d"
proof (induction d n numbers rule: pad_with.induct)
  case (1 d n numbers)
  show ?case
  proof (cases "length numbers < n")
    case True
    then have "n - length numbers = Suc (n - length (numbers @ [d]))" by simp
    with 1 True show ?thesis
      by (subst pad_with.simps) (simp add: replicate_app_Cons_same)
  next
    case False
    then show ?thesis by (subst pad_with.simps) simp
  qed
qed

lemma take_pad_length: "length (take n (pad_with d n numbers)) = n"
  by (simp add: pad_with_eq)

lemma take_pad_set:
  "set (take n (pad_with d n numbers)) \<subseteq> set numbers \<union> {d}"
  by (auto simp: pad_with_eq dest!: in_set_takeD)

lemma parse_numbers_in_range:
  "v \<in> set (parse_numbers parseFloat lo hi response) \<Longrightarrow> \<exists>r. v = Num r \<and> lo \<le> r \<and> r \<le> hi"
  by (auto simp: parse_numbers_def in_range_def split: jsnum.splits)

lemma falsy_failure:
  "falsy (queryGroq FetchFailed)" "falsy (queryGroq StatusNotOk)" "falsy (queryGroq InvalidStructure)"
  by (simp_all add: falsy_def queryGroq_def)

text \<open>
  C6. The similarity and importance queries return a list in every case (they have no
  way to throw). When the provider fails, or answers with the empty string, the
  similarity query returns 0.5 for every neighbour and the importance query 2.0 for
  every word. Otherwise the parsed values outside [0,1] (or [0,10]) are filtered out
  and the rest is padded with the default and cut to exactly the input length.
\<close>

theorem llm_ratings_fall_back_to_defaults:
  "(falsy (queryGroq reply) \<longrightarrow>
      batchSimilarity parseFloat reply w neighbors = replicate (length neighbors) (Num 0.5)
      \<and> calculateCurvature parseFloat reply words = replicate (length words) (Num 2.0))
   \<and> (\<not> falsy (queryGroq reply) \<longrightarrow>
      batchSimilarity parseFloat reply w neighbors
        = take (length neighbors)
            (parse_numbers parseFloat 0 1 (the (queryGroq reply))
             @ replicate (length neighbors - length (parse_numbers parseFloat 0 1 (the (queryGroq reply)))) (Num 0.5))
      \<and> calculateCurvature parseFloat reply words
        = take (length words)
            (parse_numbers parseFloat 0 10 (the (queryGroq reply))
             @ replicate (length words - length (parse_numbers parseFloat 0 10 (the (queryGroq reply)))) (Num 2.0)))
   \<and> length (batchSimilarity parseFloat reply w neighbors) = length neighbors
   \<and> (\<forall>v \<in> set (batchSimilarity parseFloat reply w neighbors). \<exists>r. v = Num r \<and> 0 \<le> r \<and> r \<le> 1)
   \<and> length (calculateCurvature parseFloat reply words) = length words
   \<and> (\<forall>v \<in> set (calculateCurvature parseFloat reply words). \<exists>r. v = Num r \<and> 0 \<le> r \<and> r \<le> 10)
   \<and> falsy (queryGroq FetchFailed) \<and> falsy (queryGroq StatusNotOk)
   \<and> falsy (queryGroq InvalidStructure)"
proof -
  have sim_range: "\<exists>r. v = Num r \<and> 0 \<le> r \<and> r \<le> 1"
    if "v \<in> set (batchSimilarity parseFloat reply w neighbors)" for v
  proof (cases "falsy (queryGroq reply)")
    case True
    with that show ?thesis by (auto simp: batchSimilarity_def)
  next
    case False
    with that have "v \<in> set (parse_numbers parseFloat 0 1 (the (queryGroq reply))) \<union> {Num 0.5}"
      using take_pad_set [of "length neighbors" "Num 0.5"]
      by (auto simp: batchSimilarity_def Let_def)
    then show ?thesis
      using parse_numbers_in_range [of v parseFloat 0 1] by auto
  qed
  have cur_range: "\<exists>r. v = Num r \<and> 0 \<le> r \<and> r \<le> 10"
    if "v \<in> set (calculateCurvature parseFloat reply words)" for v
  proof (cases "falsy (queryGroq reply)")
    case True
    with that show ?thesis by (auto simp: calculateCurvature_def)
  next
    case False
    with that have "v \<in> set (parse_numbers parseFloat 0 10 (the (queryGroq reply))) \<union> {Num 2.0}"
      using take_pad_set [of "length words" "Num 2.0"]
      by (auto simp: calculateCurvature_def Let_def)
    then show ?thesis
      using parse_numbers_in_range [of v parseFloat 0 10] by auto
  qed
  have lens: "length (batchSimilarity parseFloat reply w neighbors) = length neighbors"
    "length (calculateCurvature parseFloat reply words) = length words"
    by (simp_all add: batchSimilarity_def calculateCurvature_def Let_def take_pad_length
        del: length_take)
  have fail: "batchSimilarity parseFloat reply w neighbors = replicate (length neighbors) (Num 0.5)
      \<and> calculateCurvature parseFloat reply words = replicate (length words) (Num 2.0)"
    if "falsy (queryGroq reply)"
    using that by (simp add: batchSimilarity_def calculateCurvature_def map_replicate_const)
  have ok: "batchSimilarity parseFloat reply w neighbors
        = take (length neighbors)
            (parse_numbers parseFloat 0 1 (the (queryGroq reply))
             @ replicate (length neighbors - length (parse_numbers parseFloat 0 1 (the (queryGroq reply)))) (Num 0.5))
      \<and> calculateCurvature parseFloat reply words
        = take (length words)
            (parse_numbers parseFloat 0 10 (the (queryGroq reply))
             @ replicate (length words - length (parse_numbers parseFloat 0 10 (the (queryGroq reply)))) (Num 2.0))"
    if "\<not> falsy (queryGroq reply)"
    using that by (simp add: batchSimilarity_def calculateCurvature_def Let_def pad_with_eq)
  from sim_range cur_range lens fail ok falsy_failure show ?thesis by blast
qed

lemma demo_reply:
  "queryGroq (Content ''0.9\<newline>7\<newline>-1'') = Some ''0.9\<newline>7\<newline>-1''"
  by (simp add: queryGroq_def trim_def is_space_def)

lemma demo_split: "split_on (CHR 0x0A) ''0.9\<newline>7\<newline>-1'' = [''0.9'', ''7'', ''-1'']"
  by simp

lemma demo_parse:
  "parse_numbers demo_parseFloat 0 1 ''0.9\<newline>7\<newline>-1'' = [Num 0.9]"
  "parse_numbers demo_parseFloat 0 10 ''0.9\<newline>7\<newline>-1'' = [Num 0.9, Num 7]"
  unfolding parse_numbers_def demo_split
  by (simp_all add: trim_def is_space_def demo_parseFloat_def in_range_def)

theorem llm_ratings_fall_back_to_defaults_witness:
  "falsy (queryGroq FetchFailed)
   \<and> batchSimilarity demo_parseFloat FetchFailed ''w'' [''a'', ''b''] = [Num 0.5, Num 0.5]
   \<and> calculateCurvature demo_parseFloat FetchFailed [''a'', ''b''] = [Num 2.0, Num 2.0]
   \<and> \<not> falsy (queryGroq (Content ''0.9\<newline>7\<newline>-1''))
   \<and> batchSimilarity demo_parseFloat (Content ''0.9\<newline>7\<newline>-1'') ''w'' [''a'', ''b'', ''c'']
        = [Num 0.9, Num 0.5, Num 0.5]
   \<and> calculateCurvature demo_parseFloat (Content ''0.9\<newline>7\<newline>-1'') [''a'', ''b'', ''c'']
        = [Num 0.9, Num 7, Num 2.0]"
proof -
  have f: "falsy (queryGroq FetchFailed)" by (rule falsy_failure)
  have nf: "\<not> falsy (queryGroq (Content ''0.9\<newline>7\<newline>-1''))"
    unfolding demo_reply by (simp add: falsy_def)
  from llm_ratings_fall_back_to_defaults [of FetchFailed demo_parseFloat "''w''" "[''a'', ''b'']" "[''a'', ''b'']"] f
  have 1: "batchSimilarity demo_parseFloat FetchFailed ''w'' [''a'', ''b''] = [Num 0.5, Num 0.5]
      \<and> calculateCurvature demo_parseFloat FetchFailed [''a'', ''b''] = [Num 2.0, Num 2.0]"
    by (simp add: numeral_2_eq_2)
  from llm_ratings_fall_back_to_defaults [of "Content ''0.9\<newline>7\<newline>-1''" demo_parseFloat "''w''"
      "[''a'', ''b'', ''c'']" "[''a'', ''b'', ''c'']"] nf
  have 2: "batchSimilarity demo_parseFloat (Content ''0.9\<newline>7\<newline>-1'') ''w'' [''a'', ''b'', ''c'']
        = [Num 0.9, Num 0.5, Num 0.5]
      \<and> calculateCurvature demo_parseFloat (Content ''0.9\<newline>7\<newline>-1'') [''a'', ''b'', ''c'']
        = [Num 0.9, Num 7, Num 2.0]"
    unfolding demo_reply option.sel demo_parse by (simp add: numeral_2_eq_2)
  from f nf 1 2 show ?thesis by blast
qed

section \<open>Particles and the Fibonacci expansion (quantum-assembly.js): proofs\<close>

lemma first_above_bound:
  "first_above rand cs j = Some k \<Longrightarrow> j \<le> k \<and> k < j + length cs"
  by (induction cs arbitrary: j) (auto split: if_splits, fastforce+)

lemma length_cumulative_sums [simp]: "length (cumulative_sums t c ws) = length ws"
  by (induction ws arbitrary: c) auto

lemma nearest_core_in_set:
  "nearest_core coreNodes i = Some c \<Longrightarrow> c \<in> set coreNodes"
  by (auto simp: nearest_core_def Let_def split: if_splits)

lemma nearest_core_Some:
  assumes "coreNodes \<noteq> []"
  shows "\<exists>c. nearest_core coreNodes i = Some c"
proof -
  have "k < length coreNodes"
    if "first_above r (cumulative_sums t 0 (map f coreNodes)) 0 = Some k" for r t k f
    using first_above_bound [OF that] by simp
  then show ?thesis
    using assms by (auto simp: nearest_core_def Let_def split: option.splits)
qed

lemma inherit_le:
  assumes "0 < c" "0 \<le> d"
  shows "or_default c 5.0 * exp (- d / 5.0) \<le> c"
proof -
  have "exp (- d / 5.0) \<le> 1" using assms(2) by simp
  then have "c * exp (- d / 5.0) \<le> c * 1"
    using assms(1) by (intro mult_left_mono) simp_all
  then show ?thesis using assms(1) by (simp add: or_default_def)
qed

lemma distanceTo_nonneg [simp]: "0 \<le> distanceTo a b"
  by (simp add: distanceTo_def)

lemma fib_node_at_fields:
  assumes "fib_node_at h coreNodes com i = Some (h1, node)"
  shows "nearest_core coreNodes i = Some (parentNode node)"
    and "\<exists>corePos. targetPosition (parentNode node) = Some corePos
           \<and> distanceFromParent node = distanceTo (h1 ! length h) (h1 ! corePos)"
    and "fib_curvature node
           = or_default (curvature (parentNode node)) 5.0 * exp (- distanceFromParent node / 5.0)"
    and "fib_centrality node = distanceTo (h1 ! length h) (h1 ! com)"
    and "index node = i" and "fib_position node = length h"
    and "length h1 = Suc (length h)" and "take (length h) h1 = h"
  using assms
  by (auto simp: fib_node_at_def Let_def vec_new_def split: option.splits)

lemma fib_node_at_props:
  assumes "fib_node_at h coreNodes com i = Some (h1, node)"
  shows "0 \<le> distanceFromParent node" "parentNode node \<in> set coreNodes"
    "0 < curvature (parentNode node) \<Longrightarrow> fib_curvature node \<le> curvature (parentNode node)"
proof -
  note f = fib_node_at_fields [OF assms]
  from f(2) show d: "0 \<le> distanceFromParent node" by auto
  from f(1) show "parentNode node \<in> set coreNodes" by (rule nearest_core_in_set)
  show "fib_curvature node \<le> curvature (parentNode node)" if "0 < curvature (parentNode node)"
    unfolding f(3) by (rule inherit_le [OF that d])
qed

lemma valid_targets_mono:
  "valid_targets h coreNodes \<Longrightarrow> length h \<le> length h' \<Longrightarrow> valid_targets h' coreNodes"
  by (auto simp: valid_targets_def list_all_iff split: option.splits)

lemma length_vec_add [simp]: "length (vec_add h a b) = length h"
  by (simp add: vec_add_def)

lemma length_vec_divideScalar [simp]: "length (vec_divideScalar h a s) = length h"
  by (simp add: vec_divideScalar_def)

lemma add_targets_Some:
  assumes "valid_targets h coreNodes"
  shows "\<exists>h1. add_targets h com coreNodes = Some h1 \<and> length h1 = length h"
  using assms
proof (induction coreNodes arbitrary: h)
  case Nil
  then show ?case by simp
next
  case (Cons node nodes)
  from Cons.prems obtain t where t: "targetPosition node = Some t"
    by (auto simp: valid_targets_def split: option.splits)
  have "valid_targets (vec_add h com t) nodes"
    using Cons.prems by (auto simp: valid_targets_def list_all_iff split: option.splits)
  from Cons.IH [OF this] t show ?case by simp
qed

lemma fib_node_at_Some:
  assumes "coreNodes \<noteq> []" "valid_targets h coreNodes"
  shows "\<exists>h1 node. fib_node_at h coreNodes com i = Some (h1, node)"
proof -
  from nearest_core_Some [OF assms(1)] obtain c where c: "nearest_core coreNodes i = Some c"
    by blast
  then have "c \<in> set coreNodes" by (rule nearest_core_in_set)
  with assms(2) obtain t where "targetPosition c = Some t"
    by (auto simp: valid_targets_def list_all_iff split: option.splits)
  with c show ?thesis
    by (simp add: fib_node_at_def Let_def vec_new_def)
qed

lemma fib_nodes_loop_Some:
  assumes "coreNodes \<noteq> []" "valid_targets h coreNodes"
  shows "\<exists>h' r. fib_nodes_loop coreNodes com is (h, acc) = Some (h', r)"
  using assms(2)
proof (induction "is" arbitrary: h acc)
  case Nil
  then show ?case by simp
next
  case (Cons i "is")
  from fib_node_at_Some [OF assms(1) Cons.prems] obtain h1 node
    where n: "fib_node_at h coreNodes com i = Some (h1, node)" by blast
  have "valid_targets h1 coreNodes"
    using Cons.prems fib_node_at_fields(7) [OF n] by (auto intro: valid_targets_mono)
  from Cons.IH [OF this] n show ?case by simp
qed

lemma fib_nodes_loop_result:
  assumes "fib_nodes_loop coreNodes com is (h, acc) = Some (h', r)"
  shows "length r = length acc + length is"
    and "take (length h) h' = h"
    and "(\<And>g g1 node i. fib_node_at g coreNodes com i = Some (g1, node) \<Longrightarrow> P node)
           \<Longrightarrow> list_all P acc \<Longrightarrow> list_all P r"
  using assms
proof (induction "is" arbitrary: h acc)
  case Nil
  { case 1 then show ?case by simp }
  { case 2 then show ?case by simp }
  { case 3 then show ?case by simp }
next
  case (Cons i "is")
  {
    case 1
    then obtain h1 node where n: "fib_node_at h coreNodes com i = Some (h1, node)"
      and l: "fib_nodes_loop coreNodes com is (h1, acc @ [node]) = Some (h', r)"
      by (auto split: option.splits)
    from Cons.IH(1) [OF l] show ?case by simp
  }
  {
    case 2
    then obtain h1 node where n: "fib_node_at h coreNodes com i = Some (h1, node)"
      and l: "fib_nodes_loop coreNodes com is (h1, acc @ [node]) = Some (h', r)"
      by (auto split: option.splits)
    from Cons.IH(2) [OF l] have "take (length h1) h' = h1" .
    moreover note fib_node_at_fields(7,8) [OF n]
    ultimately have "take (length h) (take (length h1) h') = h" by simp
    moreover have "length h \<le> length h1"
      using fib_node_at_fields(7) [OF n] by simp
    ultimately show ?case by (simp add: min_def)
  }
  {
    case 3
    from 3(3) obtain h1 node where n: "fib_node_at h coreNodes com i = Some (h1, node)"
      and l: "fib_nodes_loop coreNodes com is (h1, acc @ [node]) = Some (h', r)"
      by (auto split: option.splits)
    have "list_all P (acc @ [node])"
      using 3(1) [OF n] 3(2) by simp
    from Cons.IH(3) [OF 3(1) this l] show ?case by simp
  }
qed

lemma add_targets_frame:
  assumes "add_targets h com coreNodes = Some h1"
  shows "length h1 = length h" and "a \<noteq> com \<Longrightarrow> h1 ! a = h ! a"
  using assms
proof (induction coreNodes arbitrary: h)
  case Nil
  { case 1 then show ?case by simp }
  { case 2 then show ?case by simp }
next
  case (Cons node nodes)
  {
    case 1
    then obtain t where "add_targets (vec_add h com t) com nodes = Some h1"
      by (auto split: option.splits)
    from Cons.IH(1) [OF this] show ?case by simp
  }
  {
    case 2
    from 2(2) obtain t where "add_targets (vec_add h com t) com nodes = Some h1"
      by (auto split: option.splits)
    from Cons.IH(2) [OF 2(1) this] 2(1) show ?case by (simp add: vec_add_def)
  }
qed

lemma generateFibonacciExpansion_frame:
  assumes "generateFibonacciExpansion h coreNodes count = Some (h', r)"
  shows "take (length h) h' = h" and "length r = count"
proof -
  from assms obtain h1 where
    a: "add_targets (h @ [Vec3 0 0 0]) (length h) coreNodes = Some h1"
    and l: "fib_nodes_loop coreNodes (length h) [0..<count]
              (vec_divideScalar h1 (length h) (real (length coreNodes)), []) = Some (h', r)"
    by (auto simp: generateFibonacciExpansion_def vec_new_def split: option.splits)
  from fib_nodes_loop_result(1) [OF l] show "length r = count" by simp
  let ?h2 = "vec_divideScalar h1 (length h) (real (length coreNodes))"
  have len: "length ?h2 = Suc (length h)"
    using add_targets_frame(1) [OF a] by simp
  have "take (length h) ?h2 = h"
  proof (rule nth_equalityI)
    show "length (take (length h) ?h2) = length h" using len by simp
  next
    fix a assume "a < length (take (length h) ?h2)"
    then have a_lt: "a < length h" by simp
    then have "?h2 ! a = h1 ! a" by (simp add: vec_divideScalar_def)
    also have "\<dots> = (h @ [Vec3 0 0 0]) ! a"
      using a_lt by (intro add_targets_frame(2) [OF a]) simp
    finally show "take (length h) ?h2 ! a = h ! a"
      using a_lt by (simp add: nth_append)
  qed
  moreover from fib_nodes_loop_result(2) [OF l] have "take (length ?h2) h' = ?h2" .
  ultimately have "take (length h) (take (length ?h2) h') = h" by simp
  then show "take (length h) h' = h" using len by (simp add: min_def)
qed

lemma generateFibonacciExpansion_Some:
  assumes "coreNodes \<noteq> []" "valid_targets h coreNodes"
  shows "\<exists>h' r. generateFibonacciExpansion h coreNodes count = Some (h', r)"
proof -
  have v0: "valid_targets (h @ [Vec3 0 0 0]) coreNodes"
    using assms(2) by (rule valid_targets_mono) simp
  from add_targets_Some [OF v0] obtain h1 where
    a: "add_targets (h @ [Vec3 0 0 0]) (length h) coreNodes = Some h1"
      "length h1 = length (h @ [Vec3 0 0 0])"
    by blast
  have "valid_targets (vec_divideScalar h1 (length h) (real (length coreNodes))) coreNodes"
    using v0 by (rule valid_targets_mono) (simp add: a(2))
  from fib_nodes_loop_Some [OF assms(1) this] a(1) show ?thesis
    by (simp add: generateFibonacciExpansion_def vec_new_def)
qed

lemma generateFibonacciExpansion_nodes:
  assumes "generateFibonacciExpansion h coreNodes count = Some (h', r)"
  shows "list_all (\<lambda>node. 0 \<le> distanceFromParent node \<and> parentNode node \<in> set coreNodes
           \<and> (0 < curvature (parentNode node) \<longrightarrow> fib_curvature node \<le> curvature (parentNode node))
           \<and> fib_curvature node
                 = or_default (curvature (parentNode node)) 5.0 * exp (- distanceFromParent node / 5.0)) r"
proof -
  from assms obtain h1 where
    l: "fib_nodes_loop coreNodes (length h) [0..<count]
              (vec_divideScalar h1 (length h) (real (length coreNodes)), []) = Some (h', r)"
    by (auto simp: generateFibonacciExpansion_def vec_new_def split: option.splits)
  show ?thesis
  proof (rule fib_nodes_loop_result(3) [OF l], goal_cases)
    case (1 g g1 node i)
    from fib_node_at_props [OF 1] fib_node_at_fields(3) [OF 1] show ?case by blast
  next
    case 2
    show ?case by simp
  qed
qed

lemma satellites_decay_for_positive_weights:
  assumes "coreNodes \<noteq> []" "valid_targets h coreNodes" "list_all (\<lambda>c. 0 < curvature c) coreNodes"
  shows "\<exists>h' r. generateFibonacciExpansion h coreNodes count = Some (h', r) \<and> length r = count
           \<and> list_all (\<lambda>node. 0 \<le> distanceFromParent node \<and> parentNode node \<in> set coreNodes
                 \<and> fib_curvature node \<le> curvature (parentNode node)) r"
proof -
  from generateFibonacciExpansion_Some [OF assms(1,2)] obtain h' r
    where g: "generateFibonacciExpansion h coreNodes count = Some (h', r)" by blast
  from generateFibonacciExpansion_nodes [OF g] assms(3)
  have "list_all (\<lambda>node. 0 \<le> distanceFromParent node \<and> parentNode node \<in> set coreNodes
                 \<and> fib_curvature node \<le> curvature (parentNode node)) r"
    by (auto simp: list_all_iff)
  with g generateFibonacciExpansion_frame(2) [OF g] show ?thesis by blast
qed

lemma sqrt_121_400: "sqrt (121 / 400) = 11 / 20"
  by (rule real_sqrt_unique) (simp_all add: power2_eq_square)

lemma zero_weight_expansion:
  "generateFibonacciExpansion [Vec3 0 0 0] [particle_with (Some 0) 0] 1 =
     Some ([Vec3 0 0 0, Vec3 0 0 0, Vec3 0 0 (11 / 20)],
           [\<lparr> fib_position = 2, fib_curvature = 5 * exp (- (11 / 100)),
              fib_centrality = 11 / 20, parentNode = particle_with (Some 0) 0, index = 0,
              distanceFromParent = 11 / 20 \<rparr>])"
proof -
  have nc: "nearest_core [particle_with (Some 0) 0] 0 = Some (particle_with (Some 0) 0)"
    by (simp add: nearest_core_def particle_with_def or_default_def)
  have "fib_node_at [Vec3 0 0 0, Vec3 0 0 0] [particle_with (Some 0) 0] 1 0 =
      Some ([Vec3 0 0 0, Vec3 0 0 0, Vec3 0 0 (11 / 20)],
           \<lparr> fib_position = 2, fib_curvature = 5 * exp (- (11 / 100)),
              fib_centrality = 11 / 20, parentNode = particle_with (Some 0) 0, index = 0,
              distanceFromParent = 11 / 20 \<rparr>)"
    unfolding fib_node_at_def Let_def nc
    by (simp add: vec_new_def getFibonacciNumber_def FIBONACCI_SCALE_def particle_with_def
        distanceTo_def or_default_def sqrt_121_400)
  then show ?thesis
    by (simp add: generateFibonacciExpansion_def vec_new_def particle_with_def vec_add_def
        vec_divideScalar_def)
qed

lemma in_step_target:
  assumes "in_step h1 h2 g1 g2" "same_targets h1 h2 coreNodes" "c \<in> set coreNodes"
    "targetPosition c = Some t"
  shows "g1 ! t = g2 ! t" "t < length h1" "t < length h2"
proof -
  from assms(2-4) have t: "t < length h1" "t < length h2" "h1 ! t = h2 ! t"
    by (auto simp: same_targets_def list_all_iff split: option.splits)
  from assms(1) have "take (length h1) g1 ! t = h1 ! t" "take (length h2) g2 ! t = h2 ! t"
    by (simp_all add: in_step_def)
  with t show "g1 ! t = g2 ! t" by simp
  from t show "t < length h1" "t < length h2" by simp_all
qed

lemma in_step_update:
  assumes "in_step h1 h2 g1 g2" "v1 = v2"
  shows "in_step h1 h2 (g1[length h1 := v1]) (g2[length h2 := v2])"
  using assms by (simp add: in_step_def)

lemma in_step_append:
  assumes "in_step h1 h2 g1 g2"
  shows "in_step h1 h2 (g1 @ [v1]) (g2 @ [v2])"
  using assms by (simp add: in_step_def nth_append)

lemma add_targets_rel:
  assumes "in_step h1 h2 g1 g2" "same_targets h1 h2 coreNodes"
  shows "rel_option (in_step h1 h2)
           (add_targets g1 (length h1) coreNodes) (add_targets g2 (length h2) coreNodes)"
  using assms
proof (induction coreNodes arbitrary: g1 g2)
  case Nil
  then show ?case by simp
next
  case (Cons node nodes)
  show ?case
  proof (cases "targetPosition node")
    case None
    then show ?thesis by simp
  next
    case (Some t)
    from in_step_target [OF Cons.prems(1,2) _ Some]
    have t: "g1 ! t = g2 ! t" by simp
    from Cons.prems(1) have c: "g1 ! length h1 = g2 ! length h2"
      by (simp add: in_step_def)
    have "in_step h1 h2 (vec_add g1 (length h1) t) (vec_add g2 (length h2) t)"
      unfolding vec_add_def by (rule in_step_update [OF Cons.prems(1)]) (simp add: t c)
    moreover have "same_targets h1 h2 nodes"
      using Cons.prems(2) by (simp add: same_targets_def)
    ultimately show ?thesis
      using Cons.IH Some by simp
  qed
qed

lemma fib_node_at_rel:
  assumes "in_step h1 h2 g1 g2" "same_targets h1 h2 coreNodes"
  shows "rel_option (\<lambda>(g1', n1) (g2', n2).
            (\<exists>p. g1' = g1 @ [p] \<and> g2' = g2 @ [p])
            \<and> fib_position n1 = length g1 \<and> fib_position n2 = length g2 \<and> same_node n1 n2)
           (fib_node_at g1 coreNodes (length h1) i) (fib_node_at g2 coreNodes (length h2) i)"
proof (cases "nearest_core coreNodes i")
  case None
  then show ?thesis by (simp add: fib_node_at_def)
next
  case (Some c)
  then have c_in: "c \<in> set coreNodes" by (rule nearest_core_in_set)
  show ?thesis
  proof (cases "targetPosition c")
    case None
    with Some show ?thesis by (simp add: fib_node_at_def)
  next
    case t: (Some t)
    note tt = in_step_target [OF assms c_in t]
    from assms(1) have l: "length h1 < length g1" "length h2 < length g2"
      and com: "g1 ! length h1 = g2 ! length h2"
      by (simp_all add: in_step_def)
    from tt l have tl: "t < length g1" "t < length g2" by simp_all
    show ?thesis
      unfolding fib_node_at_def Let_def Some
      using t tt(1) tl l com
      by (simp add: vec_new_def nth_append same_node_def)
  qed
qed

lemma view_append:
  "fib_position n < length g \<Longrightarrow> view (g @ [p]) n = view g n"
  by (simp add: view_def nth_append)

lemma map_view_append:
  "list_all (\<lambda>n. fib_position n < length g) acc \<Longrightarrow> map (view (g @ [p])) acc = map (view g) acc"
  by (induction acc) (simp_all add: view_append)

lemma view_new:
  "fib_position n1 = length g1 \<Longrightarrow> fib_position n2 = length g2 \<Longrightarrow> same_node n1 n2
     \<Longrightarrow> view (g1 @ [p]) n1 = view (g2 @ [p]) n2"
  by (simp add: view_def same_node_def)

lemma fib_nodes_loop_rel:
  assumes "in_step h1 h2 g1 g2" "same_targets h1 h2 coreNodes"
    and "map (view g1) acc1 = map (view g2) acc2"
    and "list_all (\<lambda>n. fib_position n < length g1) acc1"
    and "list_all (\<lambda>n. fib_position n < length g2) acc2"
  shows "rel_option (same_result h1 h2)
           (fib_nodes_loop coreNodes (length h1) is (g1, acc1))
           (fib_nodes_loop coreNodes (length h2) is (g2, acc2))"
  using assms(1,3,4,5)
proof (induction "is" arbitrary: g1 g2 acc1 acc2)
  case Nil
  then show ?case by (simp add: same_result_def in_step_def)
next
  case (Cons i "is")
  from fib_node_at_rel [OF Cons.prems(1) assms(2), of i]
  consider (fail) "fib_node_at g1 coreNodes (length h1) i = None"
      "fib_node_at g2 coreNodes (length h2) i = None"
    | (ok) p n1 n2 where
      "fib_node_at g1 coreNodes (length h1) i = Some (g1 @ [p], n1)"
      "fib_node_at g2 coreNodes (length h2) i = Some (g2 @ [p], n2)"
      "fib_position n1 = length g1" "fib_position n2 = length g2" "same_node n1 n2"
    by (auto simp: option_rel_Some1 elim!: option.rel_cases)
  then show ?case
  proof cases
    case fail
    then show ?thesis by simp
  next
    case ok
    have 1: "in_step h1 h2 (g1 @ [p]) (g2 @ [p])"
      by (rule in_step_append [OF Cons.prems(1)])
    have 2: "map (view (g1 @ [p])) (acc1 @ [n1]) = map (view (g2 @ [p])) (acc2 @ [n2])"
      using Cons.prems(2,3,4) ok(3,4,5) by (simp add: map_view_append view_new)
    have 3: "list_all (\<lambda>n. fib_position n < length (g1 @ [p])) (acc1 @ [n1])"
      using Cons.prems(3) ok(3) by (auto simp: list_all_iff)
    have 4: "list_all (\<lambda>n. fib_position n < length (g2 @ [p])) (acc2 @ [n2])"
      using Cons.prems(4) ok(4) by (auto simp: list_all_iff)
    from Cons.IH [OF 1 2 3 4] ok(1,2) show ?thesis by simp
  qed
qed

lemma generateFibonacciExpansion_rel:
  assumes "same_targets h1 h2 coreNodes"
  shows "rel_option (same_result h1 h2)
           (generateFibonacciExpansion h1 coreNodes count)
           (generateFibonacciExpansion h2 coreNodes count)"
proof -
  have 0: "in_step h1 h2 (h1 @ [Vec3 0 0 0]) (h2 @ [Vec3 0 0 0])"
    by (simp add: in_step_def)
  from add_targets_rel [OF 0 assms]
  consider (fail) "add_targets (h1 @ [Vec3 0 0 0]) (length h1) coreNodes = None"
      "add_targets (h2 @ [Vec3 0 0 0]) (length h2) coreNodes = None"
    | (ok) g1 g2 where
      "add_targets (h1 @ [Vec3 0 0 0]) (length h1) coreNodes = Some g1"
      "add_targets (h2 @ [Vec3 0 0 0]) (length h2) coreNodes = Some g2"
      "in_step h1 h2 g1 g2"
    by (auto elim!: option.rel_cases)
  then show ?thesis
  proof cases
    case fail
    then show ?thesis by (simp add: generateFibonacciExpansion_def vec_new_def)
  next
    case ok
    from ok(3) have "g1 ! length h1 = g2 ! length h2" by (simp add: in_step_def)
    then have "in_step h1 h2 (vec_divideScalar g1 (length h1) (real (length coreNodes)))
                 (vec_divideScalar g2 (length h2) (real (length coreNodes)))"
      unfolding vec_divideScalar_def by (intro in_step_update [OF ok(3)]) simp
    from fib_nodes_loop_rel [OF this assms, of "[]" "[]" "[0..<count]"] ok(1,2) show ?thesis
      by (simp add: generateFibonacciExpansion_def vec_new_def)
  qed
qed

lemma same_targets_valid:
  "same_targets h1 h2 coreNodes \<Longrightarrow> list_all (\<lambda>node. targetPosition node \<noteq> None) coreNodes
     \<Longrightarrow> valid_targets h1 coreNodes"
  by (auto simp: same_targets_def valid_targets_def list_all_iff split: option.splits)

text \<open>
  C7. Two calls of the expansion with the same core nodes (whose target positions hold
  the same values in the two stores, as they do when the second call follows the
  first) and the same count both return, and their satellites read the same: position,
  weight, centrality, parent, index and distance from the parent. No call changes an
  object that existed before it, the target positions of the core nodes among them.
\<close>

theorem expansion_is_deterministic_and_pure:
  assumes "coreNodes \<noteq> []" "list_all (\<lambda>node. targetPosition node \<noteq> None) coreNodes"
    and "same_targets h1 h2 coreNodes"
  shows "\<exists>g1 r1 g2 r2.
           generateFibonacciExpansion h1 coreNodes count = Some (g1, r1)
         \<and> generateFibonacciExpansion h2 coreNodes count = Some (g2, r2)
         \<and> length r1 = count \<and> length r2 = count
         \<and> map (view g1) r1 = map (view g2) r2
         \<and> take (length h1) g1 = h1 \<and> take (length h2) g2 = h2
         \<and> same_targets h1 g1 coreNodes"
proof -
  have v: "valid_targets h1 coreNodes"
    by (rule same_targets_valid [OF assms(3,2)])
  from generateFibonacciExpansion_Some [OF assms(1) v] obtain g1 r1
    where 1: "generateFibonacciExpansion h1 coreNodes count = Some (g1, r1)" by blast
  from generateFibonacciExpansion_rel [OF assms(3), of count] 1 obtain g2 r2
    where 2: "generateFibonacciExpansion h2 coreNodes count = Some (g2, r2)"
      and same: "same_result h1 h2 (g1, r1) (g2, r2)"
    by (auto simp: option_rel_Some1)
  note f1 = generateFibonacciExpansion_frame [OF 1]
  note f2 = generateFibonacciExpansion_frame [OF 2]
  have "same_targets h1 g1 coreNodes"
    unfolding same_targets_def list_all_iff
  proof
    fix node assume n: "node \<in> set coreNodes"
    show "case targetPosition node of None \<Rightarrow> True
          | Some t \<Rightarrow> t < length h1 \<and> t < length g1 \<and> h1 ! t = g1 ! t"
    proof (cases "targetPosition node")
      case None
      then show ?thesis by simp
    next
      case (Some t)
      with v n have t: "t < length h1"
        by (auto simp: valid_targets_def list_all_iff)
      from f1(1) have "length h1 \<le> length g1"
        by (metis length_take min.cobounded1)
      moreover from f1(1) t have "g1 ! t = h1 ! t"
        by (metis nth_take)
      ultimately show ?thesis using Some t by simp
    qed
  qed
  with 1 2 same f1 f2 show ?thesis
    by (auto simp: same_result_def)
qed

lemma zero_weight_second_call:
  "same_targets [Vec3 0 0 0] [Vec3 0 0 0, Vec3 0 0 0, Vec3 0 0 (11 / 20)] [particle_with (Some 0) 0]"
  by (simp add: same_targets_def particle_with_def)

theorem expansion_is_deterministic_and_pure_witness:
  "[particle_with (Some 0) 0] \<noteq> []
   \<and> list_all (\<lambda>node. targetPosition node \<noteq> None) [particle_with (Some 0) 0]
   \<and> same_targets [Vec3 0 0 0] [Vec3 0 0 0, Vec3 0 0 0, Vec3 0 0 (11 / 20)] [particle_with (Some 0) 0]
   \<and> (\<exists>g1 r1 g2 r2.
           generateFibonacciExpansion [Vec3 0 0 0] [particle_with (Some 0) 0] 1 = Some (g1, r1)
         \<and> generateFibonacciExpansion [Vec3 0 0 0, Vec3 0 0 0, Vec3 0 0 (11 / 20)] [particle_with (Some 0) 0] 1
              = Some (g2, r2)
         \<and> length r1 = 1 \<and> length r2 = 1
         \<and> map (view g1) r1 = map (view g2) r2
         \<and> take (length [Vec3 0 0 0]) g1 = [Vec3 0 0 0]
         \<and> take (length [Vec3 0 0 0, Vec3 0 0 0, Vec3 0 0 (11 / 20)]) g2
              = [Vec3 0 0 0, Vec3 0 0 0, Vec3 0 0 (11 / 20)]
         \<and> same_targets [Vec3 0 0 0] g1 [particle_with (Some 0) 0])"
proof -
  have a: "[particle_with (Some 0) 0] \<noteq> []" by simp
  have b: "list_all (\<lambda>node. targetPosition node \<noteq> None) [particle_with (Some 0) 0]"
    by (simp add: particle_with_def)
  from expansion_is_deterministic_and_pure [OF a b zero_weight_second_call, of 1]
  show ?thesis using a b zero_weight_second_call by blast
qed

text \<open>
  C8, at the input where the code breaks it: one core node at the origin with weight
  0, one satellite. The parent is that core node and the distance from it is 0.55, but
  the satellite's weight is \<open>5 * exp (-0.11)\<close>, above its parent's weight 0: the
  \<open>|| 5.0\<close> takes the weight 0 for a missing one. The lemma
  \<open>satellites_decay_for_positive_weights\<close> is the claim for positive weights.
\<close>

theorem zero_weight_parent_is_outweighed:
  "(case generateFibonacciExpansion [Vec3 0 0 0] [particle_with (Some 0) 0] 1 of
      Some (h, [node]) \<Rightarrow>
        parentNode node = particle_with (Some 0) 0
        \<and> curvature (parentNode node) = 0
        \<and> distanceFromParent node = 11 / 20
        \<and> fib_curvature node = 5 * exp (- (11 / 100))
        \<and> curvature (parentNode node) < fib_curvature node
    | _ \<Rightarrow> False)"
  unfolding zero_weight_expansion
  by (simp add: particle_with_def)

section \<open>Potential connections (quantum-assembly.js): proofs\<close>

lemma foldl_upt_invariant:
  assumes "P a s" "a \<le> b"
    and "\<And>k t. a \<le> k \<Longrightarrow> k < b \<Longrightarrow> P k t \<Longrightarrow> P (Suc k) (f t k)"
  shows "P b (foldl f s [a..<b])"
  using assms(2,3)
proof (induction b)
  case 0
  with assms(1) show ?case by simp
next
  case (Suc b)
  show ?case
  proof (cases "a = Suc b")
    case True
    with assms(1) show ?thesis by simp
  next
    case False
    with Suc.prems(1) have ab: "a \<le> b" by simp
    have "P b (foldl f s [a..<b])"
      by (rule Suc.IH [OF ab]) (use Suc.prems(2) in auto)
    then have "P (Suc b) (f (foldl f s [a..<b]) b)"
      by (intro Suc.prems(2)) (use ab in auto)
    with ab show ?thesis by simp
  qed
qed

lemma consider_pair_step:
  assumes "list_all (candidate_ok h pool) cs" "before i j cs" "i < j" "j < length pool"
  shows "list_all (candidate_ok h pool) (consider_pair h pool i cs j)"
    and "before i (Suc j) (consider_pair h pool i cs j)"
proof -
  show "list_all (candidate_ok h pool) (consider_pair h pool i cs j)"
    using assms by (auto simp: consider_pair_def candidate_ok_def Let_def split: option.splits)
  have "(i, j) \<notin> set (map (\<lambda>c. (p1 c, p2 c)) cs)"
    using assms(2) by (auto simp: before_def list_all_iff)
  then show "before i (Suc j) (consider_pair h pool i cs j)"
    using assms(2)
    by (auto simp: consider_pair_def before_def Let_def list_all_iff split: option.splits)
qed

lemma inner_loop:
  assumes "list_all (candidate_ok h pool) cs" "before i (i + 1) cs" "i < length pool"
  shows "list_all (candidate_ok h pool) (foldl (consider_pair h pool i) cs [i + 1..<length pool])
         \<and> before i (length pool) (foldl (consider_pair h pool i) cs [i + 1..<length pool])"
proof (rule foldl_upt_invariant
    [where P = "\<lambda>j cs. list_all (candidate_ok h pool) cs \<and> before i j cs"], goal_cases)
  case 1
  from assms show ?case by simp
next
  case 2
  from assms(3) show ?case by simp
next
  case (3 j t)
  then show ?case using consider_pair_step [of h pool t i j] by simp
qed

lemma before_next: "before i n cs \<Longrightarrow> before (Suc i) (Suc i + 1) cs"
  by (auto simp: before_def list_all_iff)

lemma calculatePotentialConnections_inv:
  "list_all (candidate_ok h pool) (calculatePotentialConnections h pool)
   \<and> before (length pool) (length pool + 1) (calculatePotentialConnections h pool)"
  unfolding calculatePotentialConnections_def
proof (rule foldl_upt_invariant
    [where P = "\<lambda>i cs. list_all (candidate_ok h pool) cs \<and> before i (i + 1) cs"], goal_cases)
  case 1
  show ?case by (simp add: before_def)
next
  case 2
  show ?case by simp
next
  case (3 i t)
  with inner_loop [of h pool t i] show ?case
    by (auto dest: before_next)
qed

lemma unordered_pairs_distinct:
  assumes "distinct (map (\<lambda>c. (p1 c, p2 c)) cs)" "list_all (\<lambda>c. p1 c < p2 c) cs"
  shows "distinct (map (\<lambda>c. {p1 c, p2 c}) cs)"
proof -
  have "inj_on (\<lambda>c. {p1 c, p2 c}) (set cs)"
  proof (rule inj_onI)
    fix c d assume c: "c \<in> set cs" and d: "d \<in> set cs" and eq: "{p1 c, p2 c} = {p1 d, p2 d}"
    from assms(2) c d have "p1 c < p2 c" "p1 d < p2 d" by (auto simp: list_all_iff)
    with eq have "(p1 c, p2 c) = (p1 d, p2 d)" by (auto simp: doubleton_eq_iff)
    moreover from assms(1) have "inj_on (\<lambda>c. (p1 c, p2 c)) (set cs)"
      by (simp add: distinct_map)
    ultimately show "c = d" using c d by (auto dest: inj_onD)
  qed
  moreover from assms(1) have "distinct cs" by (simp add: distinct_map)
  ultimately show ?thesis by (simp add: distinct_map)
qed

text \<open>
  C9. Every candidate connection joins two different particles of the pool that both
  have a target position, its recorded distance is the distance of the two target
  positions and is below the threshold 3.0, and no unordered pair is recorded twice.
\<close>

theorem potential_connections_are_close_distinct_pairs:
  "(\<forall>c \<in> set (calculatePotentialConnections h pool).
       p1 c \<noteq> p2 c \<and> p1 c < length pool \<and> p2 c < length pool
       \<and> (\<exists>a b. targetPosition (pool ! p1 c) = Some a
                \<and> targetPosition (pool ! p2 c) = Some b
                \<and> distance c = distanceTo (h ! a) (h ! b))
       \<and> distance c < CONNECTION_THRESHOLD \<and> distance c < 3)
   \<and> distinct (map (\<lambda>c. {p1 c, p2 c}) (calculatePotentialConnections h pool))"
proof -
  let ?cs = "calculatePotentialConnections h pool"
  from calculatePotentialConnections_inv [of h pool]
  have ok: "list_all (candidate_ok h pool) ?cs"
    and d: "distinct (map (\<lambda>c. (p1 c, p2 c)) ?cs)"
    by (simp_all add: before_def)
  have 1: "p1 c \<noteq> p2 c \<and> p1 c < length pool \<and> p2 c < length pool
       \<and> (\<exists>a b. targetPosition (pool ! p1 c) = Some a
                \<and> targetPosition (pool ! p2 c) = Some b
                \<and> distance c = distanceTo (h ! a) (h ! b))
       \<and> distance c < CONNECTION_THRESHOLD \<and> distance c < 3" if "c \<in> set ?cs" for c
  proof -
    from ok that have "candidate_ok h pool c" by (simp add: list_all_iff)
    then show ?thesis
      by (auto simp: candidate_ok_def CONNECTION_THRESHOLD_def split: option.splits)
  qed
  have "list_all (\<lambda>c. p1 c < p2 c) ?cs"
    using ok by (auto simp: list_all_iff candidate_ok_def)
  from unordered_pairs_distinct [OF d this] 1 show ?thesis by blast
qed

lemma three_particles:
  "calculatePotentialConnections [Vec3 0 0 0, Vec3 1 0 0, Vec3 3 4 0]
     [particle_with (Some 0) 0, particle_with None 0, particle_with (Some 1) 0, particle_with (Some 2) 0]
   = [\<lparr> p1 = 0, p2 = 2, distance = 1, formed = False \<rparr>]"
proof -
  have s: "sqrt 25 = 5"
    by (simp add: real_sqrt_unique)
  have "3 \<le> sqrt 20"
    by (rule real_le_rsqrt) simp
  then have n: "\<not> sqrt 20 < 3" by simp
  show ?thesis
    by (simp add: calculatePotentialConnections_def consider_pair_def particle_with_def
        distanceTo_def CONNECTION_THRESHOLD_def s n upt_rec)
qed

theorem potential_connections_are_close_distinct_pairs_witness:
  "calculatePotentialConnections [Vec3 0 0 0, Vec3 1 0 0, Vec3 3 4 0]
     [particle_with (Some 0) 0, particle_with None 0, particle_with (Some 1) 0, particle_with (Some 2) 0]
     = [\<lparr> p1 = 0, p2 = 2, distance = 1, formed = False \<rparr>]
   \<and> distinct (map (\<lambda>c. {p1 c, p2 c})
        (calculatePotentialConnections [Vec3 0 0 0, Vec3 1 0 0, Vec3 3 4 0]
          [particle_with (Some 0) 0, particle_with None 0, particle_with (Some 1) 0, particle_with (Some 2) 0]))
   \<and> distance (hd (calculatePotentialConnections [Vec3 0 0 0, Vec3 1 0 0, Vec3 3 4 0]
          [particle_with (Some 0) 0, particle_with None 0, particle_with (Some 1) 0, particle_with (Some 2) 0]))
        < CONNECTION_THRESHOLD"
proof -
  let ?cs = "calculatePotentialConnections [Vec3 0 0 0, Vec3 1 0 0, Vec3 3 4 0]
     [particle_with (Some 0) 0, particle_with None 0, particle_with (Some 1) 0, particle_with (Some 2) 0]"
  have m: "hd ?cs \<in> set ?cs" unfolding three_particles by simp
  from potential_connections_are_close_distinct_pairs
    [of "[Vec3 0 0 0, Vec3 1 0 0, Vec3 3 4 0]"
      "[particle_with (Some 0) 0, particle_with None 0, particle_with (Some 1) 0, particle_with (Some 2) 0]"]
  have "distance (hd ?cs) < CONNECTION_THRESHOLD" and "distinct (map (\<lambda>c. {p1 c, p2 c}) ?cs)"
    using m by blast+
  with three_particles show ?thesis by blast
qed

section \<open>The assembly controller (quantum-assembly.js): proofs\<close>

lemma particleState_enterSuperposition [simp]:
  "particleState (enterSuperposition rnd s) = SUPERPOSITION"
  "isDecaying (enterSuperposition rnd s) = False"
  "decayPaused (enterSuperposition rnd s) = False"
  "running (enterSuperposition rnd s) = running s"
  "timers (enterSuperposition rnd s) = timers s"
  by (simp_all add: enterSuperposition_def)

lemma run_callbacks_idle:
  assumes "cbs \<noteq> []"
  shows "particleState (foldl (\<lambda>s' (due, cb). run_callback rnd cb s') s cbs) = SUPERPOSITION
         \<and> \<not> isDecaying (foldl (\<lambda>s' (due, cb). run_callback rnd cb s') s cbs)
         \<and> \<not> decayPaused (foldl (\<lambda>s' (due, cb). run_callback rnd cb s') s cbs)"
  using assms
proof (induction cbs arbitrary: s rule: rev_induct)
  case Nil
  then show ?case by simp
next
  case (snoc x xs)
  obtain due cb where x: "x = (due, cb)" by (cases x)
  show ?case by (cases cb) (simp add: x)
qed

lemma run_callbacks_frame:
  "running (foldl (\<lambda>s' (due, cb). run_callback rnd cb s') s cbs) = running s
   \<and> timers (foldl (\<lambda>s' (due, cb). run_callback rnd cb s') s cbs) = timers s"
proof (induction cbs arbitrary: s rule: rev_induct)
  case Nil
  then show ?case by simp
next
  case (snoc x xs)
  obtain due cb where x: "x = (due, cb)" by (cases x)
  show ?case using snoc by (cases cb) (simp add: x)
qed

text \<open>
  C5. When the provider fails at the first call (the word generation) of an assembly,
  the status shows the error message, the assembly ends without entering a phase, and
  a timer is set that, two seconds later, puts the controller into
  \<open>SUPERPOSITION\<close> with the decay flags cleared.
\<close>

theorem provider_failure_aborts_to_idle:
  assumes "k < length (running s)" "stage (running s ! k) = GeneratingWords"
    and "falsy (queryGroq reply)"
  shows "statusText (words_reply k reply now s) = ''Assembly failed: Failed to generate words from LLM''
    \<and> timers (words_reply k reply now s) = timers s @ [(now + 2000, EnterSuperposition)]
    \<and> running (words_reply k reply now s) = drop_task k (running s)
    \<and> particleState (words_reply k reply now s) = particleState s
    \<and> particleState (fire_timers (now + 2000) rnd (words_reply k reply now s)) = SUPERPOSITION
    \<and> \<not> isDecaying (fire_timers (now + 2000) rnd (words_reply k reply now s))
    \<and> \<not> decayPaused (fire_timers (now + 2000) rnd (words_reply k reply now s))
    \<and> running (fire_timers (now + 2000) rnd (words_reply k reply now s)) = drop_task k (running s)
    \<and> list_all (\<lambda>(due, cb). now + 2000 < due)
          (timers (fire_timers (now + 2000) rnd (words_reply k reply now s)))"
proof -
  let ?s1 = "words_reply k reply now s"
  have s1: "?s1 = assembly_failed k ''Failed to generate words from LLM'' now s"
    using assms by (simp add: words_reply_def)
  have due: "filter (\<lambda>(due, cb). due \<le> now + 2000) (timers ?s1) \<noteq> []"
    by (simp add: s1 assembly_failed_def)
  note idle = run_callbacks_idle [OF due, of rnd]
  note fr = run_callbacks_frame [of rnd _ "filter (\<lambda>(due, cb). due \<le> now + 2000) (timers ?s1)"]
  have t: "list_all (\<lambda>(due, cb). now + 2000 < due)
          (timers (fire_timers (now + 2000) rnd ?s1))"
    unfolding fire_timers_def by (simp add: fr list_all_iff)
  have r: "running (fire_timers (now + 2000) rnd ?s1) = drop_task k (running s)"
    unfolding fire_timers_def by (simp add: fr) (simp add: s1 assembly_failed_def)
  show ?thesis
    using idle t r unfolding fire_timers_def [symmetric]
    by (simp add: fire_timers_def) (simp add: s1 assembly_failed_def)
qed

lemma updateContextDecay_paused:
  assumes "isDecaying s" "decayPaused s"
  shows "updateContextDecay now rnd s = s"
  using assms by (simp add: updateContextDecay_def Let_def)

lemma phase_frame_ignores_pause:
  "phase_frame now (s\<lparr> decayPaused := b \<rparr>) k = (phase_frame now s k)\<lparr> decayPaused := b \<rparr>"
proof (cases "stage (running s ! k)")
  case (InPhase ph startTime)
  then show ?thesis
    by (cases ph) (simp_all add: phase_frame_def Let_def set_stage_def)
qed (simp_all add: phase_frame_def)

text \<open>
  C2 (amended). While the pause flag is set during the decay, \<open>updateContextDecay\<close>
  changes nothing: positions, velocities, edges and flags stay as they are. A whole
  frame then changes the edges only, which \<open>updateConnections\<close> sets to their
  pulsing opacity. The space bar changes the flag only when \<open>assemblyPhase\<close> is
  \<open>ASSEMBLED\<close> and the decay has begun, and no phase callback reads the flag.
\<close>

theorem paused_decay_is_frozen:
  assumes "particleState s = ASSEMBLED" "isDecaying s" "decayPaused s"
  shows "updateContextDecay now rnd s = s
    \<and> (running s = [] \<longrightarrow>
          frame now rnd s = s\<lparr> connections := map (pulse_connection (now * 0.001)) (connections s) \<rparr>)
    \<and> (decayPaused (key_space s') \<noteq> decayPaused s' \<longrightarrow> assemblyPhase s' = ASSEMBLED \<and> isDecaying s')
    \<and> phase_frame now (s'\<lparr> decayPaused := b \<rparr>) k = (phase_frame now s' k)\<lparr> decayPaused := b \<rparr>"
proof -
  have 1: "updateContextDecay now rnd s = s"
    by (rule updateContextDecay_paused [OF assms(2,3)])
  have 2: "frame now rnd s = s\<lparr> connections := map (pulse_connection (now * 0.001)) (connections s) \<rparr>"
    if "running s = []"
  proof -
    have "updateContextDecay now rnd (updateConnections now s) = updateConnections now s"
      by (rule updateContextDecay_paused) (use assms in \<open>simp_all add: updateConnections_def Let_def\<close>)
    with that show ?thesis
      by (simp add: frame_def updateConnections_def Let_def)
  qed
  have 3: "assemblyPhase s' = ASSEMBLED \<and> isDecaying s'" if "decayPaused (key_space s') \<noteq> decayPaused s'"
    using that by (auto simp: key_space_def Let_def split: if_splits)
  from 1 2 3 phase_frame_ignores_pause show ?thesis by blast
qed

lemma pulse_opacity_lower:
  "baseOpacity conn * (7 / 10) \<le> opacity (pulse_connection time conn)" if "0 \<le> baseOpacity conn"
proof -
  have "- 1 \<le> sin (time * 2 + pulsePhase conn)" by (rule sin_ge_minus_one)
  then have "7 / 10 \<le> 1 + sin (time * 2 + pulsePhase conn) * (3 / 10)" by linarith
  then have "baseOpacity conn * (7 / 10) \<le> baseOpacity conn * (1 + sin (time * 2 + pulsePhase conn) * (3 / 10))"
    using that by (intro mult_left_mono) simp_all
  then show ?thesis by (simp add: pulse_connection_def Let_def)
qed

text \<open>
  The claim as stated fails. Paused at 60 seconds with an edge faded to 7/30 of
  opacity, the next frame sets the edge's opacity to at least 0.35. And the progress is
  not kept: resumed at 80 seconds, the first frame ends the decay at once.
\<close>

theorem paused_decay_is_frozen_counterexample:
  "particleState (key_space decaying_sim) = ASSEMBLED
   \<and> isDecaying (key_space decaying_sim) \<and> decayPaused (key_space decaying_sim)
   \<and> map opacity (connections (frame 60016 (\<lambda>k. 0) (key_space decaying_sim)))
        \<noteq> map opacity (connections (key_space decaying_sim))
   \<and> particleState (frame 80000 (\<lambda>k. 0) (key_space (frame 79984 (\<lambda>k. 0) (key_space decaying_sim))))
        = SUPERPOSITION"
proof -
  let ?p = "key_space decaying_sim"
  have p: "?p = decaying_sim\<lparr> decayPaused := True,
      statusText := ''Decay paused - inspecting shape (press SPACE to resume)'' \<rparr>"
    by (simp add: key_space_def decaying_sim_def idle_sim_def)
  have st: "particleState ?p = ASSEMBLED" "isDecaying ?p" "decayPaused ?p" "running ?p = []"
    unfolding p by (simp_all add: decaying_sim_def idle_sim_def)
  have fr: "frame now rnd ?p = ?p\<lparr> connections := map (pulse_connection (now * 0.001)) (connections ?p) \<rparr>"
    for now rnd
  proof -
    have "updateContextDecay now rnd (updateConnections now ?p) = updateConnections now ?p"
      by (rule updateContextDecay_paused) (use st in \<open>simp_all add: updateConnections_def Let_def\<close>)
    with st(4) show ?thesis
      by (simp add: frame_def updateConnections_def Let_def)
  qed
  let ?c = "\<lparr> conn_p1 = 0, conn_p2 = 1, opacity = 7 / 30, emissiveIntensity = 1 / 6,
                         baseOpacity = 1 / 2, pulsePhase = 0 \<rparr> :: connection"
  have conns: "connections ?p = [?c]"
    unfolding p by (simp add: decaying_sim_def idle_sim_def)
  have lower: "1 / 2 * (7 / 10) \<le> opacity (pulse_connection t ?c)" for t
    using pulse_opacity_lower [of ?c t] by simp
  have "opacity (pulse_connection t ?c) \<noteq> 7 / 30" for t
  proof
    assume "opacity (pulse_connection t ?c) = 7 / 30"
    with lower [of t] show False by simp
  qed
  then have 1: "map opacity (connections (frame 60016 (\<lambda>k. 0) ?p)) \<noteq> map opacity (connections ?p)"
    by (simp add: fr conns)
  let ?q = "key_space (frame 79984 (\<lambda>k. 0) ?p)"
  have q: "particleState ?q = ASSEMBLED" "isDecaying ?q" "\<not> decayPaused ?q" "running ?q = []"
    "decayStartTime ?q = 0" 
    unfolding fr unfolding p by (simp_all add: key_space_def decaying_sim_def idle_sim_def)
  have "particleState (updateContextDecay 80000 (\<lambda>k. 0) (updateConnections 80000 ?q)) = SUPERPOSITION"
    using q
    by (simp add: updateContextDecay_def updateConnections_def Let_def CONTEXT_DECAY_START_def
        CONTEXT_DECAY_DURATION_def split: prod.splits)
  then have 2: "particleState (frame 80000 (\<lambda>k. 0) ?q) = SUPERPOSITION"
    using q(4) by (simp add: frame_def)
  from st 1 2 show ?thesis by blast
qed

lemma trim_second: "trim ''second'' = ''second''"
  by (simp add: trim_def is_space_def)

text \<open>
  C1, at inputs where the code breaks it. A second question submitted during the
  attraction phase of a first one: the first assembly stays in the list of running
  calls, the state stays \<open>ATTRACTION\<close> (not \<open>VOID\<close>), and the next frame that
  ends the attraction phase moves the first assembly on to \<open>BONDING\<close>. A question
  submitted during the decay: the decay goes on while the provider is asked, and a
  frame at 80 seconds takes the controller through \<open>SUPERPOSITION\<close>.
\<close>

theorem new_question_leaves_running_assembly:
  "running (submit_question ''second'' attracting_sim)
     = [\<lparr> question = ''first'', stage = InPhase ATTRACTION 1000 \<rparr>,
        \<lparr> question = ''second'', stage = GeneratingWords \<rparr>]
   \<and> particleState (submit_question ''second'' attracting_sim) = ATTRACTION
   \<and> particleState (frame 3500 (\<lambda>k. 0) (submit_question ''second'' attracting_sim)) = BONDING
   \<and> running (frame 3500 (\<lambda>k. 0) (submit_question ''second'' attracting_sim))
     = [\<lparr> question = ''first'', stage = InPhase BONDING 3500 \<rparr>,
        \<lparr> question = ''second'', stage = GeneratingWords \<rparr>]
   \<and> particleState (submit_question ''second'' decaying_sim) = ASSEMBLED
   \<and> particleState (frame 80000 (\<lambda>k. 0) (submit_question ''second'' decaying_sim)) = SUPERPOSITION
   \<and> running (frame 80000 (\<lambda>k. 0) (submit_question ''second'' decaying_sim))
     = [\<lparr> question = ''second'', stage = GeneratingWords \<rparr>]"
proof -
  let ?a = "submit_question ''second'' attracting_sim"
  have a: "?a = attracting_sim\<lparr> statusText := ''Asking LLM for core concepts...'',
      running := [\<lparr> question = ''first'', stage = InPhase ATTRACTION 1000 \<rparr>,
        \<lparr> question = ''second'', stage = GeneratingWords \<rparr>] \<rparr>"
    by (simp add: submit_question_def trim_second collapseToShape_def attracting_sim_def idle_sim_def)
  have a_main: "updateContextDecay 3500 (\<lambda>k. 0) (updateConnections 3500 ?a)
      = ?a"
    unfolding a by (simp add: updateContextDecay_def updateConnections_def attracting_sim_def idle_sim_def)
  have a_len: "[0..<length (running ?a)] = [0, 1]"
    unfolding a by (simp add: upt_rec)
  have a_frame: "frame 3500 (\<lambda>k. 0) ?a =
      ?a\<lparr> assemblyPhase := BONDING, particleState := BONDING,
          statusText := ''Bonding: Network topology emerging...'',
          running := [\<lparr> question = ''first'', stage = InPhase BONDING 3500 \<rparr>,
            \<lparr> question = ''second'', stage = GeneratingWords \<rparr>] \<rparr>"
    unfolding frame_def a_main a_len unfolding a
    by (simp add: phase_frame_def set_stage_def attracting_sim_def idle_sim_def)
  let ?d = "submit_question ''second'' decaying_sim"
  have d: "?d = decaying_sim\<lparr> isDecaying := False, statusText := ''Asking LLM for core concepts...'',
      running := [\<lparr> question = ''second'', stage = GeneratingWords \<rparr>] \<rparr>"
    by (simp add: submit_question_def trim_second collapseToShape_def decaying_sim_def idle_sim_def)
  have d_len: "[0..<length (running ?d)] = [0]"
    unfolding d by simp
  have d_main: "particleState (updateContextDecay 80000 (\<lambda>k. 0) (updateConnections 80000 ?d)) = SUPERPOSITION
      \<and> running (updateContextDecay 80000 (\<lambda>k. 0) (updateConnections 80000 ?d))
          = [\<lparr> question = ''second'', stage = GeneratingWords \<rparr>]"
    unfolding d
    by (simp add: updateContextDecay_def updateConnections_def Let_def CONTEXT_DECAY_START_def
        CONTEXT_DECAY_DURATION_def decaying_sim_def idle_sim_def split: prod.splits)
  have d_frame: "particleState (frame 80000 (\<lambda>k. 0) ?d) = SUPERPOSITION
      \<and> running (frame 80000 (\<lambda>k. 0) ?d) = [\<lparr> question = ''second'', stage = GeneratingWords \<rparr>]"
    unfolding frame_def d_len using d_main by (simp add: phase_frame_def)
  have d_state: "particleState ?d = ASSEMBLED"
    unfolding d by (simp add: decaying_sim_def idle_sim_def)
  show ?thesis
    using d_frame d_state unfolding a_frame unfolding a
    by (simp add: attracting_sim_def idle_sim_def)
qed

theorem provider_failure_aborts_to_idle_witness:
  "0 < length (running (submit_question ''why'' idle_sim))
   \<and> stage (running (submit_question ''why'' idle_sim) ! 0) = GeneratingWords
   \<and> falsy (queryGroq FetchFailed)
   \<and> statusText (words_reply 0 FetchFailed 500 (submit_question ''why'' idle_sim))
        = ''Assembly failed: Failed to generate words from LLM''
   \<and> timers (words_reply 0 FetchFailed 500 (submit_question ''why'' idle_sim))
        = [(2500, EnterSuperposition)]
   \<and> running (words_reply 0 FetchFailed 500 (submit_question ''why'' idle_sim)) = []
   \<and> particleState (fire_timers 2500 (\<lambda>k. 0) (words_reply 0 FetchFailed 500 (submit_question ''why'' idle_sim)))
        = SUPERPOSITION
   \<and> running (fire_timers 2500 (\<lambda>k. 0) (words_reply 0 FetchFailed 500 (submit_question ''why'' idle_sim))) = []"
proof -
  let ?s = "submit_question ''why'' idle_sim"
  have s: "?s = idle_sim\<lparr> statusText := ''Asking LLM for core concepts...'',
      running := [\<lparr> question = ''why'', stage = GeneratingWords \<rparr>] \<rparr>"
    by (simp add: submit_question_def trim_def is_space_def collapseToShape_def idle_sim_def)
  have h: "0 < length (running ?s)" "stage (running ?s ! 0) = GeneratingWords"
    "falsy (queryGroq FetchFailed)"
    unfolding s by (simp_all add: idle_sim_def falsy_def queryGroq_def)
  have r: "running ?s = [\<lparr> question = ''why'', stage = GeneratingWords \<rparr>]" "timers ?s = []"
    unfolding s by (simp_all add: idle_sim_def)
  from provider_failure_aborts_to_idle [OF h, of 500 "\<lambda>k. 0"]
  show ?thesis
    using h by (simp add: r drop_task_def)
qed

theorem paused_decay_is_frozen_witness:
  "particleState (key_space decaying_sim) = ASSEMBLED
   \<and> isDecaying (key_space decaying_sim) \<and> decayPaused (key_space decaying_sim)
   \<and> updateContextDecay 60016 (\<lambda>k. 0) (key_space decaying_sim) = key_space decaying_sim
   \<and> running (key_space decaying_sim) = []
   \<and> frame 60016 (\<lambda>k. 0) (key_space decaying_sim)
        = (key_space decaying_sim)\<lparr> connections :=
             map (pulse_connection (60016 * 0.001)) (connections (key_space decaying_sim)) \<rparr>
   \<and> decayPaused (key_space decaying_sim) \<noteq> decayPaused decaying_sim
   \<and> assemblyPhase decaying_sim = ASSEMBLED \<and> isDecaying decaying_sim"
proof -
  let ?p = "key_space decaying_sim"
  have p: "?p = decaying_sim\<lparr> decayPaused := True,
      statusText := ''Decay paused - inspecting shape (press SPACE to resume)'' \<rparr>"
    by (simp add: key_space_def decaying_sim_def idle_sim_def)
  have st: "particleState ?p = ASSEMBLED" "isDecaying ?p" "decayPaused ?p"
    and r: "running ?p = []" and t: "decayPaused ?p \<noteq> decayPaused decaying_sim"
    unfolding p by (simp_all add: decaying_sim_def idle_sim_def)
  from paused_decay_is_frozen [OF st, of 60016 "\<lambda>k. 0" decaying_sim]
  show ?thesis
    using st r t by blast
qed

end
